theory Spec2Isabelle
  imports Complex_Main "HOL-Library.AList"
begin

section \<open>Python values, exceptions and dictionaries\<close>

text \<open>
  The exporter (\<^verbatim>\<open>main.py\<close>) handles one HTTP request at a time: it resolves the target
  game server, asks it for the output of the \<^verbatim>\<open>status\<close> and \<^verbatim>\<open>stats\<close> commands, parses the
  two texts into a dictionary and hands the dictionary to a template.

  A Python \<^verbatim>\<open>str\<close> is modelled as a \<open>string\<close> whose characters are the code points below
  256. Floating-point values are modelled by the real number a literal denotes (or one
  of the three special values); the rounding of that number to binary64 and the sign of
  zero are left out.
\<close>

datatype pyfloat = Finite real | PosInf | NegInf | NaN

text \<open>
  What the exporter's configuration and a resolved target hold: \<^verbatim>\<open>None\<close> (the defaults
  of \<^verbatim>\<open>SRCDSExporter.__init__\<close>), an \<^verbatim>\<open>int\<close> (\<^verbatim>\<open>--server_port\<close> has \<^verbatim>\<open>type=int\<close>) or a \<^verbatim>\<open>str\<close>.
\<close>

datatype param = PNone | PInt int | PStr string

text \<open>The values stored in \<^verbatim>\<open>server_dict\<close>.\<close>

datatype pyval = VNone | VInt int | VStr string | VFloat pyfloat

fun val_of :: "param \<Rightarrow> pyval" where
  "val_of PNone = VNone"
| "val_of (PInt n) = VInt n"
| "val_of (PStr s) = VStr s"

text \<open>
  The exceptions that occur. All of them derive from \<^verbatim>\<open>Exception\<close>;
  \<open>OtherException\<close> stands for every class the code does not single out.
\<close>

datatype exn =
    TargetSpecificationError string
  | KeyError
  | IndexError
  | ValueError
  | UnboundLocalError
  | TimeoutError
  | ConnectionRefusedError
  | OtherException string

text \<open>
  A \<^verbatim>\<open>dict\<close> keeps its keys in insertion order, and assigning to a key that exists keeps
  the key's place: \<open>AList.update\<close> on an association list.
\<close>

type_synonym pydict = "(string \<times> pyval) list"

definition setitem :: "string \<Rightarrow> pyval \<Rightarrow> pydict \<Rightarrow> pydict" where
  "setitem key v d = AList.update key v d"

section \<open>String methods\<close>

text \<open>\<^verbatim>\<open>str.isspace\<close> on one character (code points below 256).\<close>

definition py_isspace :: "char \<Rightarrow> bool" where
  "py_isspace c \<longleftrightarrow> c \<in> set [CHR 0x09, CHR 0x0A, CHR 0x0B, CHR 0x0C, CHR 0x0D,
     CHR 0x1C, CHR 0x1D, CHR 0x1E, CHR 0x1F, CHR 0x20, CHR 0x85, CHR 0xA0]"

text \<open>The line boundaries of \<^verbatim>\<open>str.splitlines\<close> (\<^verbatim>\<open>\r\n\<close> is handled apart).\<close>

definition is_linebreak :: "char \<Rightarrow> bool" where
  "is_linebreak c \<longleftrightarrow> c \<in> set [CHR 0x0A, CHR 0x0B, CHR 0x0C, CHR 0x0D,
     CHR 0x1C, CHR 0x1D, CHR 0x1E, CHR 0x85]"

definition is_digit :: "char \<Rightarrow> bool" where
  "is_digit c \<longleftrightarrow> c \<in> set ''0123456789''"

text \<open>
  \<^verbatim>\<open>s.splitlines()\<close>: \<open>cur\<close> is the line read so far. A boundary ends the line, also an
  empty one; what follows the last boundary is a line only when it is not empty.
\<close>

fun splitlines_from :: "string \<Rightarrow> string \<Rightarrow> string list" where
  "splitlines_from cur [] = (if cur = [] then [] else [cur])"
| "splitlines_from cur (c # cs) =
     (if c = CHR 0x0D then
        (case cs of
           [] \<Rightarrow> cur # splitlines_from [] cs
         | d # ds \<Rightarrow> if d = CHR 0x0A then cur # splitlines_from [] ds
                    else cur # splitlines_from [] cs)
      else if is_linebreak c then cur # splitlines_from [] cs
      else splitlines_from (cur @ [c]) cs)"

definition splitlines :: "string \<Rightarrow> string list" where
  "splitlines s = splitlines_from [] s"

text \<open>
  \<^verbatim>\<open>s.split()\<close>: the maximal runs of characters that are not whitespace; \<open>cur\<close> is the
  token read so far.
\<close>

fun split_from :: "string \<Rightarrow> string \<Rightarrow> string list" where
  "split_from cur [] = (if cur = [] then [] else [cur])"
| "split_from cur (c # cs) =
     (if py_isspace c then (if cur = [] then split_from [] cs else cur # split_from [] cs)
      else split_from (cur @ [c]) cs)"

definition split_ws :: "string \<Rightarrow> string list" where
  "split_ws s = split_from [] s"

text \<open>\<^verbatim>\<open>s.strip()\<close>.\<close>

definition strip :: "string \<Rightarrow> string" where
  "strip s = rev (dropWhile py_isspace (rev (dropWhile py_isspace s)))"

text \<open>\<^verbatim>\<open>s.split(sep)\<close> for a separator of one character: always at least one part.\<close>

fun split_sep_from :: "char \<Rightarrow> string \<Rightarrow> string \<Rightarrow> string list" where
  "split_sep_from sep cur [] = [cur]"
| "split_sep_from sep cur (c # cs) =
     (if c = sep then cur # split_sep_from sep [] cs else split_sep_from sep (cur @ [c]) cs)"

definition split_sep :: "char \<Rightarrow> string \<Rightarrow> string list" where
  "split_sep sep s = split_sep_from sep [] s"

text \<open>\<^verbatim>\<open>s.split(sep, 1)\<close>: split at the first separator only.\<close>

definition split_sep1 :: "char \<Rightarrow> string \<Rightarrow> string list" where
  "split_sep1 sep s =
     (case dropWhile (\<lambda>c. c \<noteq> sep) s of
        [] \<Rightarrow> [s]
      | _ # after \<Rightarrow> [takeWhile (\<lambda>c. c \<noteq> sep) s, after])"

text \<open>\<^verbatim>\<open>xs[i]\<close> for \<open>i \<ge> 0\<close>.\<close>

definition getitem :: "'a list \<Rightarrow> nat \<Rightarrow> exn + 'a" where
  "getitem xs i = (if i < length xs then Inr (xs ! i) else Inl IndexError)"

text \<open>\<^verbatim>\<open>"%s" % v\<close> for the values a target holds; \<open>dec\<close> writes a natural number in decimal.\<close>

definition digit_char :: "nat \<Rightarrow> char" where
  "digit_char n = ''0123456789'' ! (n mod 10)"

fun dec :: "nat \<Rightarrow> string" where
  "dec n = (if n < 10 then [digit_char n] else dec (n div 10) @ [digit_char n])"

declare dec.simps [simp del]

fun percent_s :: "param \<Rightarrow> string" where
  "percent_s PNone = ''None''"
| "percent_s (PInt n) = (if n < 0 then CHR ''-'' # dec (nat (- n)) else dec (nat n))"
| "percent_s (PStr s) = s"

section \<open>The builtin float on a string\<close>

text \<open>
  \<^verbatim>\<open>float(s)\<close> strips the whitespace around \<open>s\<close>, refuses an underscore that is not
  between two digits and drops the others, then reads an optional sign followed by
  \<^verbatim>\<open>inf\<close>, \<^verbatim>\<open>infinity\<close> or \<^verbatim>\<open>nan\<close> in any case, or by a decimal number: digits with an
  optional point (a digit on at least one side of it) and an optional exponent. The
  whole string must be used up; \<open>None\<close> is the \<^verbatim>\<open>ValueError\<close>.

  Which strings are accepted is modelled exactly. The value of an accepted decimal number
  is the real number it denotes: \<^verbatim>\<open>float\<close> rounds that number to the nearest binary64 value
  (so \<^verbatim>\<open>1e309\<close> is \<^verbatim>\<open>inf\<close> and \<^verbatim>\<open>-0\<close> is \<^verbatim>\<open>-0.0\<close> in Python), which \<open>Finite\<close> does not
  model. The properties below hold for every parsed value; the concrete values they name
  (such as 1.5 and 30.0) are binary64 values, where rounding changes nothing.
\<close>

definition float_space :: "char \<Rightarrow> bool" where
  "float_space c \<longleftrightarrow> c \<in> set [CHR 0x09, CHR 0x0A, CHR 0x0B, CHR 0x0C, CHR 0x0D,
     CHR 0x20, CHR 0x85, CHR 0xA0]"

definition float_strip :: "string \<Rightarrow> string" where
  "float_strip s = rev (dropWhile float_space (rev (dropWhile float_space s)))"

fun underscores_ok :: "char \<Rightarrow> string \<Rightarrow> bool" where
  "underscores_ok prev [] = (prev \<noteq> CHR ''_'')"
| "underscores_ok prev (c # cs) =
     (if c = CHR ''_'' then is_digit prev \<and> underscores_ok c cs
      else if prev = CHR ''_'' then is_digit c \<and> underscores_ok c cs
      else underscores_ok c cs)"

definition digit_val :: "char \<Rightarrow> nat" where
  "digit_val c = length (takeWhile (\<lambda>d. d \<noteq> c) ''0123456789'')"

definition nat_of_digits :: "string \<Rightarrow> nat" where
  "nat_of_digits ds = foldl (\<lambda>a c. 10 * a + digit_val c) 0 ds"

definition to_lower :: "char \<Rightarrow> char" where
  "to_lower c = (case List.find (\<lambda>(u, l). u = c)
                       (zip ''ABCDEFGHIJKLMNOPQRSTUVWXYZ'' ''abcdefghijklmnopqrstuvwxyz'') of
                   Some (u, l) \<Rightarrow> l
                 | None \<Rightarrow> c)"

definition scale10 :: "nat \<Rightarrow> int \<Rightarrow> real" where
  "scale10 m e = (if 0 \<le> e then of_nat m * 10 ^ nat e else of_nat m / 10 ^ nat (- e))"

text \<open>The exponent part: nothing, or \<^verbatim>\<open>e\<close>, an optional sign and at least one digit.\<close>

definition float_exponent :: "string \<Rightarrow> int option" where
  "float_exponent s =
     (case s of
        [] \<Rightarrow> Some 0
      | c # t \<Rightarrow>
          if c = CHR ''e'' \<or> c = CHR ''E'' then
            (let (neg, ds) =
               (case t of
                  [] \<Rightarrow> (False, [])
                | x # u \<Rightarrow> if x = CHR ''-'' then (True, u)
                           else if x = CHR ''+'' then (False, u) else (False, t))
             in if ds \<noteq> [] \<and> list_all is_digit ds
                then Some (if neg then - int (nat_of_digits ds) else int (nat_of_digits ds))
                else None)
          else None)"

definition float_abs :: "string \<Rightarrow> pyfloat option" where
  "float_abs s =
     (if map to_lower s = ''inf'' \<or> map to_lower s = ''infinity'' then Some PosInf
      else if map to_lower s = ''nan'' then Some NaN
      else
        (let ip = takeWhile is_digit s;
             r = dropWhile is_digit s;
             (fp, r') =
               (case r of
                  [] \<Rightarrow> ([], [])
                | c # t \<Rightarrow> if c = CHR ''.'' then (takeWhile is_digit t, dropWhile is_digit t)
                           else ([], r))
         in if ip = [] \<and> fp = [] then None
            else (case float_exponent r' of
                    None \<Rightarrow> None
                  | Some e \<Rightarrow> Some (Finite (scale10 (nat_of_digits (ip @ fp)) (e - int (length fp)))))))"

fun float_neg :: "pyfloat \<Rightarrow> pyfloat" where
  "float_neg (Finite x) = Finite (- x)"
| "float_neg PosInf = NegInf"
| "float_neg NegInf = PosInf"
| "float_neg NaN = NaN"

definition py_float :: "string \<Rightarrow> pyfloat option" where
  "py_float s0 =
     (let s = float_strip s0 in
      if \<not> underscores_ok (CHR 0x00) s then None
      else
        (case filter (\<lambda>c. c \<noteq> CHR ''_'') s of
           [] \<Rightarrow> None
         | c # t \<Rightarrow> if c = CHR ''-'' then map_option float_neg (float_abs t)
                    else if c = CHR ''+'' then float_abs t
                    else float_abs (c # t)))"

section \<open>Regular expressions\<close>

text \<open>
  The fragment of \<^verbatim>\<open>re\<close> that the pattern of \<^verbatim>\<open>_parse_status\<close> is written in: literal text,
  the classes \<^verbatim>\<open>\d\<close> and \<^verbatim>\<open>\s\<close>, one or more of a class (greedy), an optional group, a
  sequence and a named group. A group without a name only brackets, so it has no
  constructor of its own.
\<close>

datatype cclass = Digit | Space

datatype regex =
    Lit string
  | One cclass
  | Plus cclass
  | Opt regex
  | Seq regex regex
  | Named string regex

fun in_class :: "cclass \<Rightarrow> char \<Rightarrow> bool" where
  "in_class Digit c = is_digit c"
| "in_class Space c = py_isspace c"

type_synonym groups = "(string \<times> string) list"

text \<open>\<open>match_lit l s\<close>: what is left of \<open>s\<close> after the literal \<open>l\<close>, when \<open>s\<close> starts with it.\<close>

fun match_lit :: "string \<Rightarrow> string \<Rightarrow> string option" where
  "match_lit [] s = Some s"
| "match_lit (c # l) [] = None"
| "match_lit (c # l) (x # s) = (if c = x then match_lit l s else None)"

text \<open>
  Backtracking: \<open>k\<close> is the rest of the match. \<open>try_longest k s n\<close> gives \<open>k\<close> the input
  after the first \<open>n\<close> characters, then after \<open>n - 1\<close>, down to one character, and
  returns the first success.
\<close>

fun try_longest :: "(string \<Rightarrow> groups option) \<Rightarrow> string \<Rightarrow> nat \<Rightarrow> groups option" where
  "try_longest k s 0 = None"
| "try_longest k s (Suc n) =
     (case k (drop (Suc n) s) of Some g \<Rightarrow> Some g | None \<Rightarrow> try_longest k s n)"

fun rmatch ::
  "regex \<Rightarrow> string \<Rightarrow> groups \<Rightarrow> (string \<Rightarrow> groups \<Rightarrow> groups option) \<Rightarrow> groups option" where
  "rmatch (Lit l) s g k = (case match_lit l s of None \<Rightarrow> None | Some s' \<Rightarrow> k s' g)"
| "rmatch (One c) s g k =
     (case s of [] \<Rightarrow> None | x # xs \<Rightarrow> if in_class c x then k xs g else None)"
| "rmatch (Plus c) s g k =
     try_longest (\<lambda>s'. k s' g) s (length (takeWhile (in_class c) s))"
| "rmatch (Opt r) s g k = (case rmatch r s g k of Some g' \<Rightarrow> Some g' | None \<Rightarrow> k s g)"
| "rmatch (Seq a b) s g k = rmatch a s g (\<lambda>s' g'. rmatch b s' g' k)"
| "rmatch (Named n r) s g k =
     rmatch r s g (\<lambda>s' g'. k s' (AList.update n (take (length s - length s') s) g'))"

text \<open>\<^verbatim>\<open>re.match(r, s)\<close>: the match starts at the start of \<open>s\<close> and may end anywhere.\<close>

definition re_match :: "regex \<Rightarrow> string \<Rightarrow> groups option" where
  "re_match r s = rmatch r s [] (\<lambda>s' g. Some g)"

fun group_names :: "regex \<Rightarrow> string list" where
  "group_names (Lit l) = []"
| "group_names (One c) = []"
| "group_names (Plus c) = []"
| "group_names (Opt r) = group_names r"
| "group_names (Seq a b) = group_names a @ group_names b"
| "group_names (Named n r) = n # group_names r"

text \<open>
  \<^verbatim>\<open>m.groupdict()\<close>: every named group of the pattern, in the pattern's order, with
  \<open>None\<close> for a group that took no part in the match.
\<close>

definition groupdict :: "regex \<Rightarrow> groups \<Rightarrow> (string \<times> string option) list" where
  "groupdict r g = map (\<lambda>n. (n, map_of g n)) (group_names r)"

section \<open>Parsing the status response\<close>

text \<open>
  The pattern of the players line:
  \<^verbatim>\<open>(?P<players>\d+)\s+(humans,\s+)?((?P<bots>\d+)\s+bots\s+)?\((?P<max_players>\d+)(/\d)? max\)\<close>
\<close>

definition players_re :: regex where
  "players_re =
     Seq (Named ''players'' (Plus Digit))
    (Seq (Plus Space)
    (Seq (Opt (Seq (Lit ''humans,'') (Plus Space)))
    (Seq (Opt (Seq (Named ''bots'' (Plus Digit))
              (Seq (Plus Space) (Seq (Lit ''bots'') (Plus Space)))))
    (Seq (Lit ''('')
    (Seq (Named ''max_players'' (Plus Digit))
    (Seq (Opt (Seq (Lit ''/'') (One Digit)))
         (Lit '' max)'')))))))"

text \<open>\<^verbatim>\<open>key, value = (a.strip() for a in ...)\<close>: exactly two items, or \<^verbatim>\<open>ValueError\<close>.\<close>

definition unpack2 :: "string list \<Rightarrow> exn + string \<times> string" where
  "unpack2 xs = (case xs of [a, b] \<Rightarrow> Inr (a, b) | _ \<Rightarrow> Inl ValueError)"

text \<open>
  The branch \<^verbatim>\<open>if key == "players"\<close>: when the pattern matches, every item of the
  \<^verbatim>\<open>groupdict\<close> is stored as it is (a matched substring, or \<^verbatim>\<open>None\<close>).
\<close>

definition store_groups :: "(string \<times> string option) list \<Rightarrow> pydict \<Rightarrow> pydict" where
  "store_groups items d =
     fold (\<lambda>(key, v). setitem key (case v of None \<Rightarrow> VNone | Some s \<Rightarrow> VStr s)) items d"

definition status_players :: "string \<Rightarrow> pydict \<Rightarrow> pydict" where
  "status_players v d =
     (case re_match players_re v of
        None \<Rightarrow> d
      | Some g \<Rightarrow> store_groups (groupdict players_re g) d)"

text \<open>What one header line \<^verbatim>\<open>key: value\<close> does to the dictionary.\<close>

definition status_field :: "string \<Rightarrow> string \<Rightarrow> pydict \<Rightarrow> pydict" where
  "status_field key v d =
     (if key = ''players'' then status_players v d
      else if key = ''hostname'' then setitem ''hostname'' (VStr v) d
      else d)"

text \<open>
  The loop of \<^verbatim>\<open>_parse_status\<close> over the lines: a blank line breaks, and so does the
  \<^verbatim>\<open>ValueError\<close> of a line that does not unpack into key and value; any other exception
  would leave the function.
\<close>

fun parse_status_lines :: "string list \<Rightarrow> pydict \<Rightarrow> exn + pydict" where
  "parse_status_lines [] d = Inr d"
| "parse_status_lines (line # rest) d =
     (if strip line = [] then Inr d
      else
        (case unpack2 (map strip (split_sep1 (CHR '':'') line)) of
           Inl e \<Rightarrow> if e = ValueError then Inr d else Inl e
         | Inr (key, v) \<Rightarrow> parse_status_lines rest (status_field key v d)))"

definition parse_status :: "string \<Rightarrow> pydict \<Rightarrow> exn + pydict" where
  "parse_status status d = parse_status_lines (splitlines status) d"

section \<open>Parsing the stats response\<close>

definition STATS_MAPPING :: "(string \<times> string) list" where
  "STATS_MAPPING =
     [(''In'', ''NetIn''),
      (''In_(KB/s)'', ''NetIn''),
      (''Out'', ''NetOut''),
      (''Out_(KB/s)'', ''NetOut''),
      (''+-ms'', ''varms''),
      (''~tick'', ''vartick''),
      (''Svms'', ''svarms''),
      (''Map_changes'', ''Maps'')]"

text \<open>
  The loop \<^verbatim>\<open>for i, name in enumerate(names)\<close>, which overwrites \<^verbatim>\<open>names[i]\<close> in place.
\<close>

function rename_loop :: "nat \<Rightarrow> string list \<Rightarrow> string list" where
  "rename_loop i names =
     (if i < length names then
        (case map_of STATS_MAPPING (names ! i) of
           Some new \<Rightarrow> rename_loop (Suc i) (names[i := new])
         | None \<Rightarrow> rename_loop (Suc i) names)
      else names)"
  by pat_completeness auto
termination
  by (relation "measure (\<lambda>(i, names). length names - i)") auto

declare rename_loop.simps [simp del]

text \<open>\<^verbatim>\<open>[float(v) for v in values]\<close>: the first value that does not parse raises.\<close>

fun floats :: "string list \<Rightarrow> exn + pyfloat list" where
  "floats [] = Inr []"
| "floats (v # vs) =
     (case py_float v of
        None \<Rightarrow> Inl ValueError
      | Some x \<Rightarrow> (case floats vs of Inl e \<Rightarrow> Inl e | Inr xs \<Rightarrow> Inr (x # xs)))"

text \<open>\<^verbatim>\<open>for key, value in zip(names, values): server_dict[key] = value\<close>\<close>

definition store_stats :: "string list \<Rightarrow> pyfloat list \<Rightarrow> pydict \<Rightarrow> pydict" where
  "store_stats names vals d = fold (\<lambda>(key, x). setitem key (VFloat x)) (zip names vals) d"

definition parse_stats :: "string \<Rightarrow> pydict \<Rightarrow> exn + pydict" where
  "parse_stats stats d =
     (let lines = map split_ws (splitlines stats) in
      case getitem lines 0 of
        Inl e \<Rightarrow> Inl e
      | Inr names \<Rightarrow>
          (case getitem lines 1 of
             Inl e \<Rightarrow> Inl e
           | Inr vals \<Rightarrow>
               (let names' = rename_loop 0 names in
                case floats vals of
                  Inl e \<Rightarrow> Inl e
                | Inr xs \<Rightarrow> Inr (store_stats names' xs d))))"

definition parse_query :: "string \<Rightarrow> string \<Rightarrow> pydict \<Rightarrow> exn + pydict" where
  "parse_query stats status d =
     (case parse_status status d of
        Inl e \<Rightarrow> Inl e
      | Inr d' \<Rightarrow> parse_stats stats d')"

section \<open>Resolving the target\<close>

record exporter =
  self_ip :: param
  self_port :: param
  self_password :: param
  self_single_server :: bool

text \<open>
  \<^verbatim>\<open>request.query\<close> is a multi-dictionary of strings: a list of pairs, where a lookup
  returns the first value of the key.
\<close>

record request =
  path :: string
  query :: "(string \<times> string) list"

type_synonym target = "param \<times> param \<times> param"

definition query_has :: "(string \<times> string) list \<Rightarrow> string \<Rightarrow> bool" where
  "query_has q key \<longleftrightarrow> key \<in> set (map fst q)"

definition query_get :: "(string \<times> string) list \<Rightarrow> string \<Rightarrow> exn + string" where
  "query_get q key = (case map_of q key of None \<Rightarrow> Inl KeyError | Some v \<Rightarrow> Inr v)"

definition single_server_message :: string where
  "single_server_message =
     [CHR 0x27] @ ''target'' @ [CHR 0x27] @ '' and '' @ [CHR 0x27] @ ''password'' @ [CHR 0x27]
       @ '' not allowed in single server mode.''"

text \<open>\<^verbatim>\<open>for key in ["target", "password"]: if key in request.query: raise ...\<close>\<close>

fun check_no_keys :: "string list \<Rightarrow> (string \<times> string) list \<Rightarrow> exn option" where
  "check_no_keys [] q = None"
| "check_no_keys (key # keys) q =
     (if query_has q key then Some (TargetSpecificationError single_server_message)
      else check_no_keys keys q)"

text \<open>
  The first \<^verbatim>\<open>try\<close> block of the multi-target branch. Beside its outcome it returns what
  the local variable \<^verbatim>\<open>target\<close> is bound to when the block is left, because the
  \<^verbatim>\<open>except\<close> clause reads that variable: \<open>None\<close> when the lookup itself raised.
\<close>

definition split_target :: "(string \<times> string) list \<Rightarrow> string option \<times> (exn + string \<times> string)" where
  "split_target q =
     (case query_get q ''target'' of
        Inl e \<Rightarrow> (None, Inl e)
      | Inr target \<Rightarrow>
          (let targets = split_sep (CHR '':'') target in
           case getitem targets 0 of
             Inl e \<Rightarrow> (Some target, Inl e)
           | Inr ip \<Rightarrow>
               (case getitem targets 1 of
                  Inl e \<Rightarrow> (Some target, Inl e)
                | Inr port \<Rightarrow> (Some target, Inr (ip, port)))))"

definition get_target :: "exporter \<Rightarrow> request \<Rightarrow> exn + target" where
  "get_target self req =
     (if self_single_server self then
        (case check_no_keys [''target'', ''password''] (query req) of
           Some e \<Rightarrow> Inl e
         | None \<Rightarrow> Inr (self_ip self, self_port self, self_password self))
      else
        (case split_target (query req) of
           (bound, Inl e) \<Rightarrow>
             (case bound of
                None \<Rightarrow> Inl UnboundLocalError
              | Some target \<Rightarrow>
                  Inl (TargetSpecificationError
                        (''target '' @ target @ '' is not a valid targetspecification'')))
         | (bound, Inr (ip, port)) \<Rightarrow>
             (case query_get (query req) ''password'' of
                Inl e \<Rightarrow> Inl (TargetSpecificationError ''no password given'')
              | Inr password \<Rightarrow> Inr (PStr ip, PStr port, PStr password))))"

section \<open>The request handler\<close>

text \<open>
  A response is its body and its HTTP status. The template \<^verbatim>\<open>response.j2\<close> is not part of
  the program text, so the body of a successful scrape is kept as the dictionary the
  template is rendered with.
\<close>

datatype body = Text string | Rendered pydict

datatype response = Response body nat

definition server_down_response :: response where
  "server_down_response =
     Response (Text (''# HELP srcds_up is the gameserver reachable'' @ [CHR 0x0A]
                     @ ''# TYPE srcds_up gauge'' @ [CHR 0x0A]
                     @ ''srcds_up 0'')) 200"

definition server_dict :: "param \<Rightarrow> param \<Rightarrow> pydict" where
  "server_dict ip port =
     [(''ip'', val_of ip),
      (''port'', val_of port),
      (''target'', VStr (''{'' @ percent_s ip @ ''}:{'' @ percent_s port @ ''}''))]"

text \<open>
  \<open>request_handler self req rcon\<close>: \<open>rcon\<close> is what \<^verbatim>\<open>_rcon_query\<close> does when it is
  awaited, an exception or the pair \<open>(status, stats)\<close>. The result is what the handler
  returns (or the exception that leaves it) and the list of targets an RCON session
  was opened to. Logging is left out.
\<close>

definition request_handler ::
  "exporter \<Rightarrow> request \<Rightarrow> (exn + string \<times> string) \<Rightarrow> (exn + response) \<times> target list" where
  "request_handler self req rcon =
     (if path req \<noteq> ''/metrics'' then (Inr (Response (Text ''invalid path'') 404), [])
      else
        (case get_target self req of
           Inl e \<Rightarrow>
             (case e of
                TargetSpecificationError msg \<Rightarrow>
                  (Inr (Response (Text (''target specification is invalid: '' @ msg)) 404), [])
              | _ \<Rightarrow> (Inl e, []))
         | Inr (ip, port, password) \<Rightarrow>
             (case rcon of
                Inl e \<Rightarrow>
                  (if e = TimeoutError then (Inr server_down_response, [(ip, port, password)])
                   else if e = ConnectionRefusedError
                   then (Inr (Response (Text ''Connection refused by target'') 503),
                         [(ip, port, password)])
                   else (Inr server_down_response, [(ip, port, password)]))
              | Inr (status, stats) \<Rightarrow>
                  (case parse_query stats status (server_dict ip port) of
                     Inl e \<Rightarrow> (Inl e, [(ip, port, password)])
                   | Inr d \<Rightarrow> (Inr (Response (Rendered d) 200), [(ip, port, password)])))))"

section \<open>Notions used in the statements\<close>

text \<open>A non-empty string of decimal digits.\<close>

definition digits :: "string \<Rightarrow> bool" where
  "digits ds \<longleftrightarrow> ds \<noteq> [] \<and> list_all is_digit ds"

text \<open>
  A header line of the status text is a line that is not blank and holds a colon; its key and
  its value are what stands before and after the first colon, stripped. \<open>header_line\<close> is
  what such a line does to the dictionary.
\<close>

definition is_header :: "string \<Rightarrow> bool" where
  "is_header line \<longleftrightarrow> strip line \<noteq> [] \<and> CHR '':'' \<in> set line"

definition header_key :: "string \<Rightarrow> string" where
  "header_key line = strip (takeWhile (\<lambda>c. c \<noteq> CHR '':'') line)"

definition header_value :: "string \<Rightarrow> string" where
  "header_value line = strip (tl (dropWhile (\<lambda>c. c \<noteq> CHR '':'') line))"

definition header_line :: "string \<Rightarrow> pydict \<Rightarrow> pydict" where
  "header_line line d = status_field (header_key line) (header_value line) d"

text \<open>
  The dictionary after a players line that matched: the three groups, stored in the order
  of the pattern.
\<close>

definition players_found :: "string \<Rightarrow> string option \<Rightarrow> string \<Rightarrow> pydict \<Rightarrow> pydict" where
  "players_found ps bs ms d =
     setitem ''max_players'' (VStr ms)
       (setitem ''bots'' (case bs of None \<Rightarrow> VNone | Some s \<Rightarrow> VStr s)
         (setitem ''players'' (VStr ps) d))"

text \<open>What the renaming loop of \<^verbatim>\<open>_parse_stats\<close> does to one name.\<close>

definition stats_rename :: "string \<Rightarrow> string" where
  "stats_rename name = (case map_of STATS_MAPPING name of Some new \<Rightarrow> new | None \<Rightarrow> name)"

text \<open>The values of a line of tokens that all parse.\<close>

definition float_values :: "string list \<Rightarrow> pyfloat list" where
  "float_values vals = map (\<lambda>v. the (py_float v)) vals"

text \<open>
  The example of the specification: the two texts, and the mapping the specification gives
  for them, with the target written as the address, a colon and the port.
\<close>

definition example_status :: string where
  "example_status =
     ''hostname: My Server'' @ [CHR 0x0A] @ ''players: 5 humans, 2 bots (10 max)'' @ [CHR 0x0A]"

definition example_stats :: string where
  "example_stats = ''In Out +-ms'' @ [CHR 0x0A] @ ''1.5 2.5 30.0'' @ [CHR 0x0A]"

definition spec_example_mapping :: "param \<Rightarrow> param \<Rightarrow> pydict" where
  "spec_example_mapping ip port =
     [(''hostname'', VStr ''My Server''),
      (''players'', VInt 5),
      (''bots'', VInt 2),
      (''max_players'', VInt 10),
      (''NetIn'', VFloat (Finite 1.5)),
      (''NetOut'', VFloat (Finite 2.5)),
      (''varms'', VFloat (Finite 30)),
      (''ip'', val_of ip),
      (''port'', val_of port),
      (''target'', VStr (percent_s ip @ '':'' @ percent_s port))]"

section \<open>Digits and the pattern of the players line\<close>

lemma digit_char_is_digit: "is_digit (digit_char n)"
proof -
  have "n mod 10 < 10" by simp
  then have "n mod 10 \<in> {0,1,2,3,4,5,6,7,8,9}" by (simp add: insert_iff) arith
  then show ?thesis
    by (auto simp: digit_char_def is_digit_def)
qed

lemma digits_dec: "digits (dec n)"
proof (induction n rule: dec.induct)
  case (1 n)
  show ?case
  proof (cases "n < 10")
    case True
    then show ?thesis by (subst dec.simps) (simp add: digits_def digit_char_is_digit)
  next
    case False
    with 1 have "digits (dec (n div 10))" by simp
    with False show ?thesis by (subst dec.simps) (simp add: digits_def digit_char_is_digit)
  qed
qed

lemma digit_val_digit_char: "digit_val (digit_char n) = n mod 10"
proof -
  have "n mod 10 < 10" by simp
  then have "n mod 10 \<in> {0,1,2,3,4,5,6,7,8,9}" by (simp add: insert_iff) arith
  then show ?thesis
    by (auto simp: digit_char_def digit_val_def)
qed

lemma nat_of_digits_dec: "nat_of_digits (dec n) = n"
proof (induction n rule: dec.induct)
  case (1 n)
  show ?case
  proof (cases "n < 10")
    case True
    then show ?thesis by (subst dec.simps) (simp add: nat_of_digits_def digit_val_digit_char)
  next
    case False
    with 1 have "nat_of_digits (dec (n div 10)) = n div 10" by simp
    with False show ?thesis
      by (subst dec.simps) (simp add: nat_of_digits_def digit_val_digit_char)
  qed
qed

lemma not_space_digit: "is_digit c \<Longrightarrow> \<not> py_isspace c"
  by (auto simp: is_digit_def py_isspace_def)

lemma takeWhile_digits:
  "digits ds \<Longrightarrow> \<not> is_digit x \<Longrightarrow> takeWhile is_digit (ds @ x # rest) = ds"
  by (simp add: digits_def list_all_iff takeWhile_append2)

lemma takeWhile_space_digits:
  "digits ds \<Longrightarrow> takeWhile py_isspace (ds @ rest) = []"
  by (cases ds) (auto simp: digits_def not_space_digit)

lemma try_longest_pos:
  "0 < n \<Longrightarrow> try_longest k s n =
     (case k (drop n s) of Some g \<Rightarrow> Some g | None \<Rightarrow> try_longest k s (n - 1))"
  by (cases n) (simp_all split: option.splits)

lemma in_class_Digit: "in_class Digit = is_digit"
  by (rule ext) simp

lemma in_class_Space: "in_class Space = py_isspace"
  by (rule ext) simp

lemma plus_digits:
  assumes "digits ds" "\<not> is_digit x"
  shows "rmatch (Plus Digit) (ds @ x # rest) g k =
           (case k (x # rest) g of
              Some g' \<Rightarrow> Some g'
            | None \<Rightarrow> try_longest (\<lambda>s'. k s' g) (ds @ x # rest) (length ds - 1))"
proof -
  have "0 < length ds" using assms(1) by (simp add: digits_def)
  then show ?thesis
    using assms by (simp add: in_class_Digit takeWhile_digits try_longest_pos)
qed

lemma plus_digits_none:
  "\<not> is_digit x \<Longrightarrow> rmatch (Plus Digit) (x # rest) g k = None"
  by simp

lemma plus_space_one:
  assumes "py_isspace y" "takeWhile py_isspace s = []"
  shows "rmatch (Plus Space) (y # s) g k =
           (case k s g of Some g' \<Rightarrow> Some g' | None \<Rightarrow> None)"
  using assms by (simp add: in_class_Space split: option.splits)


lemmas layout_simps =
  re_match_def players_re_def plus_digits plus_digits_none plus_space_one takeWhile_space_digits
  is_digit_def py_isspace_def

lemma match_bots:
  assumes "digits ps" "digits bs" "digits ms"
  shows "re_match players_re (ps @ '' humans, '' @ bs @ '' bots ('' @ ms @ '' max)'' @ suffix)
           = Some [(''players'', ps), (''bots'', bs), (''max_players'', ms)]"
  using assms by (simp add: layout_simps del: rmatch.simps(3))

lemma match_bots_slash:
  assumes "digits ps" "digits bs" "digits ms" "is_digit x"
  shows "re_match players_re
           (ps @ '' humans, '' @ bs @ '' bots ('' @ ms @ ''/'' @ [x] @ '' max)'' @ suffix)
           = Some [(''players'', ps), (''bots'', bs), (''max_players'', ms)]"
  using assms by (simp add: layout_simps del: rmatch.simps(3))

lemma match_plain:
  assumes "digits ps" "digits ms"
  shows "re_match players_re (ps @ '' ('' @ ms @ '' max)'' @ suffix)
           = Some [(''players'', ps), (''max_players'', ms)]"
  using assms by (simp add: layout_simps del: rmatch.simps(3))


lemma store_three:
  "store_groups (groupdict players_re g) d =
     setitem ''max_players'' (case map_of g ''max_players'' of None \<Rightarrow> VNone | Some s \<Rightarrow> VStr s)
       (setitem ''bots'' (case map_of g ''bots'' of None \<Rightarrow> VNone | Some s \<Rightarrow> VStr s)
         (setitem ''players'' (case map_of g ''players'' of None \<Rightarrow> VNone | Some s \<Rightarrow> VStr s) d))"
  by (simp add: store_groups_def groupdict_def players_re_def)

lemma players_bots:
  assumes "digits ps" "digits bs" "digits ms"
  shows "status_players (ps @ '' humans, '' @ bs @ '' bots ('' @ ms @ '' max)'' @ suffix) d
           = players_found ps (Some bs) ms d"
  using match_bots [OF assms, of suffix]
  by (simp add: status_players_def store_three players_found_def)

lemma players_bots_slash:
  assumes "digits ps" "digits bs" "digits ms" "is_digit x"
  shows "status_players
           (ps @ '' humans, '' @ bs @ '' bots ('' @ ms @ ''/'' @ [x] @ '' max)'' @ suffix) d
           = players_found ps (Some bs) ms d"
  using match_bots_slash [OF assms, of suffix]
  by (simp add: status_players_def store_three players_found_def)

lemma players_plain:
  assumes "digits ps" "digits ms"
  shows "status_players (ps @ '' ('' @ ms @ '' max)'' @ suffix) d = players_found ps None ms d"
  using match_plain [OF assms, of suffix]
  by (simp add: status_players_def store_three players_found_def)

lemma map_of_setitem: "map_of (setitem k v d) = (map_of d)(k \<mapsto> v)"
  by (simp add: setitem_def update_conv')

lemma players_found_lookup:
  "map_of (players_found ps bs ms d) ''players'' = Some (VStr ps)"
  "map_of (players_found ps bs ms d) ''max_players'' = Some (VStr ms)"
  "map_of (players_found ps bs ms d) ''bots'' = Some (case bs of None \<Rightarrow> VNone | Some s \<Rightarrow> VStr s)"
  by (simp_all add: players_found_def map_of_setitem)

section \<open>The loop over the status lines\<close>

lemma unpack2_colon:
  "CHR '':'' \<in> set line \<Longrightarrow>
     unpack2 (map strip (split_sep1 (CHR '':'') line)) = Inr (header_key line, header_value line)"
proof -
  assume "CHR '':'' \<in> set line"
  then have "dropWhile (\<lambda>c. c \<noteq> CHR '':'') line \<noteq> []"
    by (auto simp: dropWhile_eq_Nil_conv)
  then obtain x after where "dropWhile (\<lambda>c. c \<noteq> CHR '':'') line = x # after"
    by (cases "dropWhile (\<lambda>c. c \<noteq> CHR '':'') line") auto
  then show ?thesis
    by (simp add: split_sep1_def unpack2_def header_key_def header_value_def)
qed

lemma unpack2_no_colon:
  "CHR '':'' \<notin> set line \<Longrightarrow> unpack2 (map strip (split_sep1 (CHR '':'') line)) = Inl ValueError"
proof -
  assume "CHR '':'' \<notin> set line"
  then have "dropWhile (\<lambda>c. c \<noteq> CHR '':'') line = []"
    by (auto simp: dropWhile_eq_Nil_conv)
  then show ?thesis
    by (simp add: split_sep1_def unpack2_def del: dropWhile_eq_Nil_conv)
qed

lemma parse_status_lines_takeWhile:
  "parse_status_lines ls d = Inr (fold header_line (takeWhile is_header ls) d)"
proof (induction ls arbitrary: d)
  case Nil
  show ?case by simp
next
  case (Cons l ls)
  show ?case
  proof (cases "is_header l")
    case True
    then show ?thesis
      using Cons.IH by (simp add: is_header_def unpack2_colon header_line_def)
  next
    case False
    then show ?thesis
      by (auto simp: is_header_def unpack2_no_colon)
  qed
qed

lemma takeWhile_stop:
  "list_all P pre \<Longrightarrow> \<not> P x \<Longrightarrow> takeWhile P (pre @ x # post) = pre"
  by (simp add: list_all_iff takeWhile_append2)

text \<open>
  Claim C6. \<^verbatim>\<open>_parse_status\<close> never raises: it returns the dictionary reached by the header
  lines that stand before the first line that is blank or holds no colon, taken in order.
  So when the lines are \<open>pre @ stop # post\<close>, every line of \<open>pre\<close> is a header line and
  \<open>stop\<close> is blank or cannot be split at a colon, the result is that of \<open>pre\<close> alone,
  whatever \<open>post\<close> holds. A players line whose value the pattern does not match leaves the
  dictionary as it is.
\<close>

theorem parse_status_stops:
  "parse_status status d = Inr (fold header_line (takeWhile is_header (splitlines status)) d)
   \<and> (splitlines status = pre @ stop # post \<and> list_all is_header pre
        \<and> (strip stop = [] \<or> CHR '':'' \<notin> set stop)
      \<longrightarrow> parse_status status d = Inr (fold header_line pre d))
   \<and> (re_match players_re v = None \<longrightarrow> status_field ''players'' v d = d)"
proof (intro conjI impI)
  show "parse_status status d = Inr (fold header_line (takeWhile is_header (splitlines status)) d)"
    by (simp add: parse_status_def parse_status_lines_takeWhile)
next
  assume a: "splitlines status = pre @ stop # post \<and> list_all is_header pre
        \<and> (strip stop = [] \<or> CHR '':'' \<notin> set stop)"
  then have "\<not> is_header stop" by (auto simp: is_header_def)
  with a have "takeWhile is_header (splitlines status) = pre"
    by (simp add: takeWhile_stop)
  then show "parse_status status d = Inr (fold header_line pre d)"
    by (simp add: parse_status_def parse_status_lines_takeWhile)
next
  assume "re_match players_re v = None"
  then show "status_field ''players'' v d = d"
    by (simp add: status_field_def status_players_def)
qed

theorem parse_status_stops_witness:
  "parse_status (''hostname: A'' @ [CHR 0x0A] @ ''players: many'' @ [CHR 0x0A, CHR 0x0A]
                   @ ''hostname: B'') []
     = Inr [(''hostname'', VStr ''A'')]"
proof -
  let ?s = "''hostname: A'' @ [CHR 0x0A] @ ''players: many'' @ [CHR 0x0A, CHR 0x0A]
              @ ''hostname: B''"
  have sl: "splitlines ?s = [''hostname: A'', ''players: many''] @ [] # [''hostname: B'']"
    by (simp add: splitlines_def is_linebreak_def)
  have hs: "list_all is_header [''hostname: A'', ''players: many'']"
    by (simp add: is_header_def strip_def py_isspace_def)
  have st: "strip [] = [] \<or> CHR '':'' \<notin> set []"
    by (simp add: strip_def)
  have nm: "re_match players_re ''many'' = None"
    by (simp add: re_match_def players_re_def is_digit_def)
  have "parse_status ?s [] = Inr (fold header_line [''hostname: A'', ''players: many''] [])"
    using parse_status_stops [of ?s "[]" "[''hostname: A'', ''players: many'']" "[]" "[''hostname: B'']" "''many''"]
      sl hs st by blast
  moreover have "status_field ''players'' ''many'' [] = []"
    using parse_status_stops [of ?s "[]" "[''hostname: A'', ''players: many'']" "[]" "[''hostname: B'']" "''many''"]
      nm by blast
  moreover have "header_line ''players: many'' [(''hostname'', VStr ''A'')]
                   = status_field ''players'' ''many'' [(''hostname'', VStr ''A'')]"
    by (simp add: header_line_def header_key_def header_value_def strip_def py_isspace_def)
  moreover have "status_field ''players'' ''many'' [(''hostname'', VStr ''A'')] = [(''hostname'', VStr ''A'')]"
    using nm by (simp add: status_field_def status_players_def)
  moreover have "header_line ''hostname: A'' [] = [(''hostname'', VStr ''A'')]"
    by (simp add: header_line_def header_key_def header_value_def strip_def py_isspace_def
        status_field_def setitem_def)
  ultimately show ?thesis by simp
qed

section \<open>The players line\<close>

lemma splitlines_from_plain:
  "\<forall>c\<in>set s. \<not> is_linebreak c \<Longrightarrow> cur @ s \<noteq> [] \<Longrightarrow> splitlines_from cur s = [cur @ s]"
proof (induction s arbitrary: cur)
  case Nil
  then show ?case by simp
next
  case (Cons c s)
  then have "c \<noteq> CHR 0x0D" by (auto simp: is_linebreak_def)
  with Cons show ?case by simp
qed

lemma splitlines_plain:
  "\<forall>c\<in>set s. \<not> is_linebreak c \<Longrightarrow> s \<noteq> [] \<Longrightarrow> splitlines s = [s]"
  using splitlines_from_plain [of s "[]"] by (simp add: splitlines_def)

lemma digit_not_linebreak: "is_digit c \<Longrightarrow> \<not> is_linebreak c"
  by (auto simp: is_digit_def is_linebreak_def)

lemma digits_no_linebreak: "digits ds \<Longrightarrow> c \<in> set ds \<Longrightarrow> \<not> is_linebreak c"
  by (auto simp: digits_def list_all_iff digit_not_linebreak)

lemma dropWhile_space_digits: "digits ds \<Longrightarrow> dropWhile py_isspace (ds @ rest) = ds @ rest"
  by (cases ds) (auto simp: digits_def not_space_digit)

lemma status_plain_line:
  assumes "digits ps" "digits ms"
  shows "parse_status (''players: '' @ ps @ '' ('' @ ms @ '' max)'') d
           = Inr (players_found ps None ms d)"
proof -
  let ?v = "ps @ '' ('' @ ms @ '' max)''"
  let ?l = "''players: '' @ ?v"
  have nb: "\<forall>c\<in>set ?l. \<not> is_linebreak c"
    using assms by (auto simp: digits_no_linebreak) (simp_all add: is_linebreak_def)
  have sl: "splitlines ?l = [?l]"
    using splitlines_plain [OF nb] by simp
  have sv: "strip (CHR '' '' # ?v) = ?v"
    using assms by (simp add: strip_def dropWhile_space_digits) (simp add: py_isspace_def)
  have hk: "header_key ?l = ''players''"
    by (simp add: header_key_def strip_def py_isspace_def)
  have hv: "header_value ?l = ?v"
    using sv by (simp add: header_value_def)
  have hd: "is_header ?l"
    by (simp add: is_header_def strip_def py_isspace_def)
  have "parse_status ?l d = Inr (header_line ?l d)"
    using hd sl by (simp add: parse_status_def parse_status_lines_takeWhile)
  also have "header_line ?l d = status_players ?v d"
    by (simp only: header_line_def hk hv status_field_def refl if_True)
  also have "\<dots> = players_found ps None ms d"
    using players_plain [OF assms, of "[]" d] by simp
  finally show ?thesis .
qed

text \<open>
  Claim C4, as the code has it. For all natural numbers \<open>p\<close>, \<open>b\<close>, \<open>b'\<close> and \<open>m\<close> written in
  decimal, the three layouts of the players value
  \<^verbatim>\<open><p> humans, <b> bots (<m>/<digit> max) suffix\<close>, \<^verbatim>\<open><p> (<m> max)\<close> and
  \<^verbatim>\<open><p> humans, <b'> bots (<m> max)\<close> give the same \<^verbatim>\<open>players\<close> and the same \<^verbatim>\<open>max_players\<close>:
  the digit strings of \<open>p\<close> and of \<open>m\<close>, stored as strings (whose decimal reading is \<open>p\<close> and
  \<open>m\<close>). The \<^verbatim>\<open>/<digit>\<close> part and whatever follows \<^verbatim>\<open>max)\<close> are accepted and dropped.
\<close>

theorem players_layouts_agree:
  assumes "is_digit x"
  shows
    "map_of (status_players (dec p @ '' humans, '' @ dec b @ '' bots ('' @ dec m @ ''/'' @ [x]
               @ '' max)'' @ suffix) d) ''players'' = Some (VStr (dec p))
   \<and> map_of (status_players (dec p @ '' humans, '' @ dec b @ '' bots ('' @ dec m @ ''/'' @ [x]
               @ '' max)'' @ suffix) d) ''max_players'' = Some (VStr (dec m))
   \<and> map_of (status_players (dec p @ '' ('' @ dec m @ '' max)'' @ suffix') d) ''players''
         = Some (VStr (dec p))
   \<and> map_of (status_players (dec p @ '' ('' @ dec m @ '' max)'' @ suffix') d) ''max_players''
         = Some (VStr (dec m))
   \<and> map_of (status_players (dec p @ '' humans, '' @ dec b' @ '' bots ('' @ dec m @ '' max)''
               @ suffix'') d) ''players'' = Some (VStr (dec p))
   \<and> map_of (status_players (dec p @ '' humans, '' @ dec b' @ '' bots ('' @ dec m @ '' max)''
               @ suffix'') d) ''max_players'' = Some (VStr (dec m))
   \<and> nat_of_digits (dec p) = p \<and> nat_of_digits (dec m) = m"
proof -
  note dg = digits_dec [of p] digits_dec [of b] digits_dec [of b'] digits_dec [of m]
  have 1: "status_players (dec p @ '' humans, '' @ dec b @ '' bots ('' @ dec m @ ''/'' @ [x]
               @ '' max)'' @ suffix) d = players_found (dec p) (Some (dec b)) (dec m) d"
    using dg assms by (rule_tac players_bots_slash)
  have 2: "status_players (dec p @ '' ('' @ dec m @ '' max)'' @ suffix') d
             = players_found (dec p) None (dec m) d"
    using dg by (rule_tac players_plain)
  have 3: "status_players (dec p @ '' humans, '' @ dec b' @ '' bots ('' @ dec m @ '' max)''
               @ suffix'') d = players_found (dec p) (Some (dec b')) (dec m) d"
    using dg by (rule_tac players_bots)
  show ?thesis
    by (simp only: 1 2 3 players_found_lookup nat_of_digits_dec simp_thms)
qed

theorem players_layouts_agree_witness:
  "map_of (status_players ''12 humans, 0 bots (16/0 max) (hibernating)'' []) ''players''
     = Some (VStr ''12'')
   \<and> map_of (status_players ''12 humans, 0 bots (16/0 max) (hibernating)'' []) ''max_players''
     = Some (VStr ''16'')
   \<and> map_of (status_players ''12 (16 max)'' []) ''players'' = Some (VStr ''12'')
   \<and> map_of (status_players ''12 (16 max)'' []) ''max_players'' = Some (VStr ''16'')
   \<and> map_of (status_players ''12 humans, 3 bots (16 max)'' []) ''players'' = Some (VStr ''12'')
   \<and> map_of (status_players ''12 humans, 3 bots (16 max)'' []) ''max_players''
     = Some (VStr ''16'')"
proof -
  have x: "is_digit (CHR ''0'')" by (simp add: is_digit_def)
  have d: "dec 12 = ''12''" "dec 0 = ''0''" "dec 16 = ''16''" "dec 3 = ''3''"
    by (simp_all add: dec.simps digit_char_def)
  show ?thesis
    using players_layouts_agree [OF x, of 12 0 16 "'' (hibernating)''" "[]" "[]" 3 "[]"]
    by (simp add: d)
qed

text \<open>
  Claim C4 as the specification words it fails: the values extracted are not integers. For
  \<^verbatim>\<open>12 (16 max)\<close> the entry \<^verbatim>\<open>players\<close> is the string \<^verbatim>\<open>"12"\<close>, which is not the integer 12.
\<close>

theorem players_not_integers:
  "map_of (status_players ''12 (16 max)'' []) ''players'' \<noteq> Some (VInt 12)
   \<and> map_of (status_players ''12 humans, 3 bots (16 max)'' []) ''max_players'' \<noteq> Some (VInt 16)"
proof -
  have dg: "digits ''12''" "digits ''16''" "digits ''3''"
    by (simp_all add: digits_def is_digit_def)
  have "status_players ''12 (16 max)'' [] = players_found ''12'' None ''16'' []"
    using players_plain [OF dg(1) dg(2), of "[]" "[]"] by simp
  moreover have "status_players ''12 humans, 3 bots (16 max)'' []
                   = players_found ''12'' (Some ''3'') ''16'' []"
    using players_bots [OF dg(1) dg(3) dg(2), of "[]" "[]"] by simp
  ultimately show ?thesis
    by (simp add: players_found_lookup)
qed

text \<open>
  Claim C10. A players value without a bots segment, \<^verbatim>\<open><players> (<max_players> max)\<close> with
  anything after it, still stores the key \<^verbatim>\<open>bots\<close>, bound to \<^verbatim>\<open>None\<close>, between \<^verbatim>\<open>players\<close> and
  \<^verbatim>\<open>max_players\<close>; the two groups that matched are stored as the matched substrings, not
  as numbers. The same holds for \<^verbatim>\<open>_parse_status\<close> on the line \<^verbatim>\<open>players: <value>\<close>.
\<close>

theorem players_without_bots:
  assumes "digits ps" "digits ms"
  shows "status_players (ps @ '' ('' @ ms @ '' max)'' @ suffix) d
           = setitem ''max_players'' (VStr ms)
               (setitem ''bots'' VNone (setitem ''players'' (VStr ps) d))
       \<and> map_of (status_players (ps @ '' ('' @ ms @ '' max)'' @ suffix) d) ''bots'' = Some VNone
       \<and> map_of (status_players (ps @ '' ('' @ ms @ '' max)'' @ suffix) d) ''players''
           = Some (VStr ps)
       \<and> map_of (status_players (ps @ '' ('' @ ms @ '' max)'' @ suffix) d) ''max_players''
           = Some (VStr ms)
       \<and> parse_status (''players: '' @ ps @ '' ('' @ ms @ '' max)'') d
           = Inr (setitem ''max_players'' (VStr ms)
                   (setitem ''bots'' VNone (setitem ''players'' (VStr ps) d)))"
proof -
  have "status_players (ps @ '' ('' @ ms @ '' max)'' @ suffix) d = players_found ps None ms d"
    using assms by (rule players_plain)
  moreover have "parse_status (''players: '' @ ps @ '' ('' @ ms @ '' max)'') d
                   = Inr (players_found ps None ms d)"
    using assms by (rule status_plain_line)
  moreover have "players_found ps None ms d
                   = setitem ''max_players'' (VStr ms)
                       (setitem ''bots'' VNone (setitem ''players'' (VStr ps) d))"
    by (simp add: players_found_def)
  ultimately show ?thesis
    using players_found_lookup [of ps None ms d] by simp
qed

theorem players_without_bots_witness:
  "parse_status ''players: 12 (16 max)'' []
     = Inr [(''players'', VStr ''12''), (''bots'', VNone), (''max_players'', VStr ''16'')]
   \<and> map_of (status_players ''12 (16 max)'' []) ''bots'' = Some VNone"
proof -
  have dg: "digits ''12''" "digits ''16''"
    by (simp_all add: digits_def is_digit_def)
  show ?thesis
    using players_without_bots [OF dg, of "[]" "[]"] by (simp add: setitem_def)
qed

section \<open>Resolving the target and answering a failed query\<close>

lemma check_no_keys_two:
  "check_no_keys [''target'', ''password''] q =
     (if query_has q ''target'' \<or> query_has q ''password''
      then Some (TargetSpecificationError single_server_message) else None)"
  by simp

text \<open>
  Claim C8. In single-server mode a request that carries a \<^verbatim>\<open>target\<close> or a \<^verbatim>\<open>password\<close> query
  parameter is refused with \<^verbatim>\<open>TargetSpecificationError\<close>, and a request that carries neither
  gets exactly the configured triple of address, port and password.
\<close>

theorem single_server_target:
  assumes "self_single_server self"
  shows "get_target self req =
           (if query_has (query req) ''target'' \<or> query_has (query req) ''password''
            then Inl (TargetSpecificationError single_server_message)
            else Inr (self_ip self, self_port self, self_password self))"
  using assms by (simp add: get_target_def check_no_keys_two del: check_no_keys.simps)

theorem single_server_target_witness:
  "get_target \<lparr>self_ip = PStr ''10.0.0.5'', self_port = PInt 27015, self_password = PStr ''pw'',
                 self_single_server = True\<rparr> \<lparr>path = ''/metrics'', query = []\<rparr>
     = Inr (PStr ''10.0.0.5'', PInt 27015, PStr ''pw'')
   \<and> get_target \<lparr>self_ip = PStr ''10.0.0.5'', self_port = PInt 27015, self_password = PStr ''pw'',
                 self_single_server = True\<rparr>
        \<lparr>path = ''/metrics'', query = [(''password'', ''x'')]\<rparr>
     = Inl (TargetSpecificationError single_server_message)"
proof -
  let ?e = "\<lparr>self_ip = PStr ''10.0.0.5'', self_port = PInt 27015, self_password = PStr ''pw'',
                 self_single_server = True\<rparr>"
  have s: "self_single_server ?e" by simp
  show ?thesis
    using single_server_target [OF s, of "\<lparr>path = ''/metrics'', query = []\<rparr>"]
      single_server_target [OF s, of "\<lparr>path = ''/metrics'', query = [(''password'', ''x'')]\<rparr>"]
    by (simp add: query_has_def)
qed

text \<open>
  Claim C2. When the target is resolved and the RCON query raises, the handler answers a
  refused connection with the text \<^verbatim>\<open>Connection refused by target\<close> and status 503, and
  every other exception, a timeout included, with the fixed text whose only sample is
  \<^verbatim>\<open>srcds_up 0\<close>. Neither body is rendered from a dictionary of metrics.
\<close>

theorem rcon_failure_response:
  assumes "path req = ''/metrics''" and "get_target self req = Inr tgt"
  shows "request_handler self req (Inl e) =
           (Inr (if e = ConnectionRefusedError
                 then Response (Text ''Connection refused by target'') 503
                 else Response (Text (''# HELP srcds_up is the gameserver reachable'' @ [CHR 0x0A]
                                      @ ''# TYPE srcds_up gauge'' @ [CHR 0x0A]
                                      @ ''srcds_up 0'')) 200),
            [tgt])"
  using assms by (cases tgt) (simp add: request_handler_def server_down_response_def)

theorem rcon_failure_response_witness:
  "request_handler \<lparr>self_ip = PStr ''10.0.0.5'', self_port = PInt 27015,
                     self_password = PStr ''pw'', self_single_server = True\<rparr>
     \<lparr>path = ''/metrics'', query = []\<rparr> (Inl TimeoutError)
     = (Inr server_down_response, [(PStr ''10.0.0.5'', PInt 27015, PStr ''pw'')])
   \<and> request_handler \<lparr>self_ip = PStr ''10.0.0.5'', self_port = PInt 27015,
                     self_password = PStr ''pw'', self_single_server = True\<rparr>
     \<lparr>path = ''/metrics'', query = []\<rparr> (Inl (OtherException ''NameError''))
     = (Inr server_down_response, [(PStr ''10.0.0.5'', PInt 27015, PStr ''pw'')])
   \<and> request_handler \<lparr>self_ip = PStr ''10.0.0.5'', self_port = PInt 27015,
                     self_password = PStr ''pw'', self_single_server = True\<rparr>
     \<lparr>path = ''/metrics'', query = []\<rparr> (Inl ConnectionRefusedError)
     = (Inr (Response (Text ''Connection refused by target'') 503),
        [(PStr ''10.0.0.5'', PInt 27015, PStr ''pw'')])"
proof -
  let ?e = "\<lparr>self_ip = PStr ''10.0.0.5'', self_port = PInt 27015, self_password = PStr ''pw'',
                 self_single_server = True\<rparr>"
  let ?r = "\<lparr>path = ''/metrics'', query = []\<rparr>"
  have p: "path ?r = ''/metrics''" by simp
  have t: "get_target ?e ?r = Inr (PStr ''10.0.0.5'', PInt 27015, PStr ''pw'')"
    by (simp add: get_target_def query_has_def)
  show ?thesis
    using rcon_failure_response [OF p t, of TimeoutError]
      rcon_failure_response [OF p t, of "OtherException ''NameError''"]
      rcon_failure_response [OF p t, of ConnectionRefusedError]
    by (simp add: server_down_response_def)
qed

text \<open>
  Claim C7 does not hold of the code. In multi-target mode a request without a \<^verbatim>\<open>target\<close>
  parameter makes \<^verbatim>\<open>request.query["target"]\<close> raise inside the \<^verbatim>\<open>try\<close> block; the \<^verbatim>\<open>except\<close>
  clause then formats its message with the local variable \<^verbatim>\<open>target\<close>, which was never
  bound, so \<^verbatim>\<open>UnboundLocalError\<close> leaves \<^verbatim>\<open>_get_target\<close> and, not being a
  \<^verbatim>\<open>TargetSpecificationError\<close>, the request handler as well.
\<close>

theorem missing_target_unbound:
  "get_target \<lparr>self_ip = PNone, self_port = PNone, self_password = PNone,
                self_single_server = False\<rparr>
     \<lparr>path = ''/metrics'', query = [(''password'', ''secret'')]\<rparr> = Inl UnboundLocalError
   \<and> request_handler \<lparr>self_ip = PNone, self_port = PNone, self_password = PNone,
                self_single_server = False\<rparr>
     \<lparr>path = ''/metrics'', query = [(''password'', ''secret'')]\<rparr> rcon
       = (Inl UnboundLocalError, [])"
  by (simp add: request_handler_def get_target_def split_target_def query_get_def)

text \<open>
  The same for every multi-target request without a \<^verbatim>\<open>target\<close> parameter. The other cases of
  a bad specification behave as intended: a target without a colon and a missing password
  raise \<^verbatim>\<open>TargetSpecificationError\<close>, which the handler answers with status 404 before any
  RCON session is opened.
\<close>

lemma missing_target_general:
  "\<not> self_single_server self \<Longrightarrow> \<not> query_has (query req) ''target'' \<Longrightarrow>
     get_target self req = Inl UnboundLocalError"
proof -
  assume a: "\<not> self_single_server self" "\<not> query_has (query req) ''target''"
  then have "map_of (query req) ''target'' = None"
    by (simp add: query_has_def map_of_eq_None_iff)
  with a show ?thesis
    by (simp add: get_target_def split_target_def query_get_def)
qed

lemma split_sep_from_no_sep:
  "sep \<notin> set s \<Longrightarrow> split_sep_from sep cur s = [cur @ s]"
  by (induction s arbitrary: cur) auto

lemma target_without_colon:
  assumes "\<not> self_single_server self" "map_of (query req) ''target'' = Some t"
    "CHR '':'' \<notin> set t"
  shows "get_target self req
           = Inl (TargetSpecificationError (''target '' @ t @ '' is not a valid targetspecification''))"
  using assms
  by (simp add: get_target_def split_target_def query_get_def split_sep_def
      split_sep_from_no_sep getitem_def)

lemma split_sep_from_nonempty: "split_sep_from sep cur s \<noteq> []"
  by (induction s arbitrary: cur) auto

lemma split_sep_from_length:
  "sep \<in> set s \<Longrightarrow> 2 \<le> length (split_sep_from sep cur s)"
proof (induction s arbitrary: cur)
  case Nil
  then show ?case by simp
next
  case (Cons c s)
  show ?case
  proof (cases "c = sep")
    case True
    then show ?thesis
      using split_sep_from_nonempty [of sep "[]" s]
      by (cases "split_sep_from sep [] s") auto
  next
    case False
    with Cons show ?thesis by auto
  qed
qed

lemma missing_password:
  assumes "\<not> self_single_server self" "map_of (query req) ''target'' = Some t"
    "CHR '':'' \<in> set t" "map_of (query req) ''password'' = None"
  shows "get_target self req = Inl (TargetSpecificationError ''no password given'')"
proof -
  have "2 \<le> length (split_sep (CHR '':'') t)"
    using assms(3) by (simp add: split_sep_def split_sep_from_length)
  moreover from this have "split_sep (CHR '':'') t \<noteq> []" by auto
  ultimately show ?thesis
    using assms
    by (simp add: get_target_def split_target_def query_get_def getitem_def Let_def)
qed

lemma invalid_target_no_rcon:
  assumes "path req = ''/metrics''" "get_target self req = Inl (TargetSpecificationError msg)"
  shows "request_handler self req rcon
           = (Inr (Response (Text (''target specification is invalid: '' @ msg)) 404), [])"
  using assms by (simp add: request_handler_def)

section \<open>The stats response\<close>

text \<open>
  The renaming loop visits every index once, so it is \<open>map stats_rename\<close>; \<open>stats_rename\<close>
  replaces exactly the eight names of \<^verbatim>\<open>STATS_MAPPING\<close>.
\<close>

lemma rename_loop_from:
  "i \<le> length names \<Longrightarrow>
     rename_loop i names = take i names @ map stats_rename (drop i names)"
proof (induction i names rule: rename_loop.induct)
  case (1 i names)
  show ?case
  proof (cases "i < length names")
    case False
    with 1(3) show ?thesis by (subst rename_loop.simps) simp
  next
    case True
    then have dr: "drop i names = names ! i # drop (Suc i) names"
      by (simp add: Cons_nth_drop_Suc)
    show ?thesis
    proof (cases "map_of STATS_MAPPING (names ! i)")
      case None
      with True 1(1,2) have "rename_loop (Suc i) names
          = take (Suc i) names @ map stats_rename (drop (Suc i) names)" by simp
      with True None show ?thesis
        by (subst rename_loop.simps) (simp add: dr take_Suc_conv_app_nth stats_rename_def)
    next
      case (Some new)
      with True 1(1,2) have "rename_loop (Suc i) (names[i := new])
          = take (Suc i) (names[i := new]) @ map stats_rename (drop (Suc i) (names[i := new]))"
        by simp
      with True Some show ?thesis
        by (subst rename_loop.simps)
          (simp add: dr take_Suc_conv_app_nth stats_rename_def)
    qed
  qed
qed

lemma rename_loop_map: "rename_loop 0 names = map stats_rename names"
  using rename_loop_from [of 0 names] by simp

lemma stats_rename_table:
  "stats_rename n =
     (if n = ''In'' \<or> n = ''In_(KB/s)'' then ''NetIn''
      else if n = ''Out'' \<or> n = ''Out_(KB/s)'' then ''NetOut''
      else if n = ''+-ms'' then ''varms''
      else if n = ''~tick'' then ''vartick''
      else if n = ''Svms'' then ''svarms''
      else if n = ''Map_changes'' then ''Maps''
      else n)"
  by (simp add: stats_rename_def STATS_MAPPING_def)

lemma floats_fail: "v \<in> set vals \<Longrightarrow> py_float v = None \<Longrightarrow> floats vals = Inl ValueError"
proof (induction vals)
  case Nil
  then show ?case by simp
next
  case (Cons a vals)
  then show ?case
    by (cases "py_float a"; cases "a = v") (auto split: sum.splits)
qed

lemma floats_ok:
  "list_all (\<lambda>v. py_float v \<noteq> None) vals \<Longrightarrow> floats vals = Inr (float_values vals)"
  by (induction vals) (auto simp: float_values_def)

lemma parse_stats_lines:
  assumes "map split_ws (splitlines stats) = names # vals # rest"
  shows "parse_stats stats d =
           (case floats vals of
              Inl e \<Rightarrow> Inl e
            | Inr xs \<Rightarrow> Inr (store_stats (map stats_rename names) xs d))"
  using assms by (simp add: parse_stats_def getitem_def rename_loop_map)

lemma store_stats_keys:
  "fst ` set (store_stats ns xs d) = fst ` set d \<union> fst ` set (zip ns xs)"
proof -
  have "fst ` set (fold (\<lambda>(key, x). setitem key (VFloat x)) ps d) = fst ` set d \<union> fst ` set ps"
    for ps :: "(string \<times> pyfloat) list"
  proof (induction ps arbitrary: d)
    case Nil
    show ?case by simp
  next
    case (Cons p ps)
    obtain k x where p: "p = (k, x)" by (cases p)
    have "fst ` set (setitem k (VFloat x) d) = insert k (fst ` set d)"
      by (simp add: setitem_def dom_update)
    then show ?case
      using Cons.IH [of "setitem k (VFloat x) d"] by (simp add: p)
  qed
  then show ?thesis by (simp add: store_stats_def)
qed

lemma store_stats_truncates:
  "store_stats ns xs d
     = store_stats (take (min (length ns) (length xs)) ns) (take (min (length ns) (length xs)) xs) d"
proof -
  have "zip ns xs = zip (take (min (length ns) (length xs)) ns)
                        (take (min (length ns) (length xs)) xs)"
    by (simp add: take_zip [symmetric])
  then show ?thesis by (simp only: store_stats_def)
qed

text \<open>
  Claim C9. When the stats text has at least two lines and every token of the second line
  parses as a float, \<^verbatim>\<open>_parse_stats\<close> does not fail, whatever the numbers \<open>n\<close> of names and
  \<open>m\<close> of values: it stores the first \<open>min n m\<close> columns and nothing of the rest, so the keys
  of the result are those of the dictionary before and the first \<open>min n m\<close> renamed names.
\<close>

theorem stats_uneven_columns:
  assumes "map split_ws (splitlines stats) = names # vals # rest"
    and "list_all (\<lambda>v. py_float v \<noteq> None) vals"
  shows "parse_stats stats d
           = Inr (store_stats (take (min (length names) (length vals)) (map stats_rename names))
                    (take (min (length names) (length vals)) (float_values vals)) d)
       \<and> fst ` set (store_stats (take (min (length names) (length vals)) (map stats_rename names))
                    (take (min (length names) (length vals)) (float_values vals)) d)
           = fst ` set d \<union> set (take (min (length names) (length vals)) (map stats_rename names))"
proof -
  let ?k = "min (length names) (length vals)"
  have "parse_stats stats d = Inr (store_stats (map stats_rename names) (float_values vals) d)"
    using assms by (simp add: parse_stats_lines floats_ok)
  also have "store_stats (map stats_rename names) (float_values vals) d
               = store_stats (take ?k (map stats_rename names)) (take ?k (float_values vals)) d"
    using store_stats_truncates [of "map stats_rename names" "float_values vals" d]
    by (simp add: float_values_def)
  finally have 1: "parse_stats stats d
           = Inr (store_stats (take ?k (map stats_rename names)) (take ?k (float_values vals)) d)" .
  have "length (take ?k (map stats_rename names)) = length (take ?k (float_values vals))"
    by (simp add: float_values_def)
  then have "fst ` set (zip (take ?k (map stats_rename names)) (take ?k (float_values vals)))
               = set (take ?k (map stats_rename names))"
    by (metis map_fst_zip set_map)
  with 1 show ?thesis
    by (simp only: store_stats_keys simp_thms)
qed

lemmas float_eval =
  py_float_def float_strip_def float_space_def float_abs_def to_lower_def is_digit_def
  float_exponent_def scale10_def nat_of_digits_def digit_val_def

theorem stats_uneven_columns_witness:
  "parse_stats (''In Out CPU'' @ [CHR 0x0A] @ ''1.5 2.5'' @ [CHR 0x0A]) []
     = Inr [(''NetIn'', VFloat (Finite 1.5)), (''NetOut'', VFloat (Finite 2.5))]
   \<and> parse_stats (''In'' @ [CHR 0x0A] @ ''1.5 2.5 3'' @ [CHR 0x0A]) []
     = Inr [(''NetIn'', VFloat (Finite 1.5))]"
proof -
  have l1: "map split_ws (splitlines (''In Out CPU'' @ [CHR 0x0A] @ ''1.5 2.5'' @ [CHR 0x0A]))
              = [''In'', ''Out'', ''CPU''] # [''1.5'', ''2.5''] # []"
    by (simp add: splitlines_def is_linebreak_def split_ws_def py_isspace_def)
  have l2: "map split_ws (splitlines (''In'' @ [CHR 0x0A] @ ''1.5 2.5 3'' @ [CHR 0x0A]))
              = [''In''] # [''1.5'', ''2.5'', ''3''] # []"
    by (simp add: splitlines_def is_linebreak_def split_ws_def py_isspace_def)
  have f: "py_float ''1.5'' = Some (Finite 1.5)" "py_float ''2.5'' = Some (Finite 2.5)"
    "py_float ''3'' = Some (Finite 3)"
    by (simp_all add: float_eval)
  have p1: "list_all (\<lambda>v. py_float v \<noteq> None) [''1.5'', ''2.5'']" by (simp add: f)
  have p2: "list_all (\<lambda>v. py_float v \<noteq> None) [''1.5'', ''2.5'', ''3'']" by (simp add: f)
  show ?thesis
    using stats_uneven_columns [OF l1 p1, of "[]"] stats_uneven_columns [OF l2 p2, of "[]"]
    by (simp add: f float_values_def store_stats_def setitem_def stats_rename_table)
qed

text \<open>The status text never makes the parser raise.\<close>

lemma parse_status_total:
  "parse_status status d = Inr (fold header_line (takeWhile is_header (splitlines status)) d)"
  by (simp add: parse_status_def parse_status_lines_takeWhile)

text \<open>
  Claim C1, as the code has it. When a token of the values line does not parse as a float,
  \<^verbatim>\<open>_parse_stats\<close> raises \<^verbatim>\<open>ValueError\<close> whatever the dictionary holds, and so does
  \<^verbatim>\<open>_parse_query\<close>. In the request handler the parsing stands outside every \<^verbatim>\<open>try\<close>, so
  the exception leaves the handler after the RCON session: no response is returned,
  neither the down text nor a rendering of a partly filled dictionary.
\<close>

theorem unparsable_value_escapes:
  assumes "path req = ''/metrics''" and "get_target self req = Inr tgt"
    and "map split_ws (splitlines stats) = names # vals # rest"
    and "v \<in> set vals" and "py_float v = None"
  shows "parse_stats stats d = Inl ValueError
       \<and> parse_query stats status d = Inl ValueError
       \<and> request_handler self req (Inr (status, stats)) = (Inl ValueError, [tgt])"
proof -
  have ps: "parse_stats stats d' = Inl ValueError" for d'
    using assms(3-5) by (simp add: parse_stats_lines floats_fail)
  have pq: "parse_query stats status d' = Inl ValueError" for d'
    by (simp add: parse_query_def parse_status_total ps)
  show ?thesis
    using assms(1,2) by (cases tgt) (simp add: ps pq request_handler_def)
qed

theorem unparsable_value_escapes_witness:
  "request_handler \<lparr>self_ip = PStr ''10.0.0.5'', self_port = PInt 27015,
                     self_password = PStr ''pw'', self_single_server = True\<rparr>
     \<lparr>path = ''/metrics'', query = []\<rparr>
     (Inr (''hostname: A'', ''In Out'' @ [CHR 0x0A] @ ''1.5 abc''))
     = (Inl ValueError, [(PStr ''10.0.0.5'', PInt 27015, PStr ''pw'')])"
proof -
  let ?e = "\<lparr>self_ip = PStr ''10.0.0.5'', self_port = PInt 27015, self_password = PStr ''pw'',
                 self_single_server = True\<rparr>"
  let ?r = "\<lparr>path = ''/metrics'', query = []\<rparr>"
  have p: "path ?r = ''/metrics''" by simp
  have t: "get_target ?e ?r = Inr (PStr ''10.0.0.5'', PInt 27015, PStr ''pw'')"
    by (simp add: get_target_def query_has_def)
  have l: "map split_ws (splitlines (''In Out'' @ [CHR 0x0A] @ ''1.5 abc''))
             = [''In'', ''Out''] # [''1.5'', ''abc''] # []"
    by (simp add: splitlines_def is_linebreak_def split_ws_def py_isspace_def)
  have m: "''abc'' \<in> set [''1.5'', ''abc'']" by simp
  have f: "py_float ''abc'' = None" by (simp add: float_eval)
  show ?thesis
    using unparsable_value_escapes [OF p t l m f, of "[]" "''hostname: A''"] by simp
qed

text \<open>
  Claim C1 as the specification words it fails: for the stats text \<^verbatim>\<open>In Out\<close>, \<^verbatim>\<open>1.5 abc\<close> the
  handler does not return the down response; \<^verbatim>\<open>ValueError\<close> escapes it.
\<close>

theorem unparsable_value_not_down:
  "fst (request_handler \<lparr>self_ip = PStr ''10.0.0.5'', self_port = PInt 27015,
                     self_password = PStr ''pw'', self_single_server = True\<rparr>
     \<lparr>path = ''/metrics'', query = []\<rparr>
     (Inr (''hostname: A'', ''In Out'' @ [CHR 0x0A] @ ''1.5 abc''))) = Inl ValueError
   \<and> fst (request_handler \<lparr>self_ip = PStr ''10.0.0.5'', self_port = PInt 27015,
                     self_password = PStr ''pw'', self_single_server = True\<rparr>
     \<lparr>path = ''/metrics'', query = []\<rparr>
     (Inr (''hostname: A'', ''In Out'' @ [CHR 0x0A] @ ''1.5 abc''))) \<noteq> Inr server_down_response"
proof -
  have l: "map split_ws (splitlines (''In Out'' @ [CHR 0x0A] @ ''1.5 abc''))
             = [''In'', ''Out''] # [''1.5'', ''abc''] # []"
    by (simp add: splitlines_def is_linebreak_def split_ws_def py_isspace_def)
  have f: "py_float ''abc'' = None" by (simp add: float_eval)
  have "floats [''1.5'', ''abc''] = Inl ValueError"
    using floats_fail [of "''abc''" "[''1.5'', ''abc'']"] f by simp
  then have "parse_stats (''In Out'' @ [CHR 0x0A] @ ''1.5 abc'') d' = Inl ValueError" for d'
    using parse_stats_lines [OF l, of d'] by (simp only: sum.case)
  then show ?thesis
    by (simp add: request_handler_def get_target_def query_has_def parse_query_def
        parse_status_total)
qed

section \<open>Columns of the stats response\<close>

text \<open>
  Storing the columns: a key that the dictionary already holds, or that an earlier column
  stored, is overwritten, so the dictionary grows by the number of distinct new keys.
\<close>

lemma setitem_length:
  "length (setitem k v d) = (if k \<in> fst ` set d then length d else Suc (length d))"
proof -
  have "length (setitem k v d) = length (map fst (AList.update k v d))"
    by (simp add: setitem_def)
  also have "\<dots> = (if k \<in> fst ` set d then length d else Suc (length d))"
    by (simp only: update_keys) simp
  finally show ?thesis .
qed

lemma setitem_keys: "fst ` set (setitem k v d) = insert k (fst ` set d)"
  by (simp add: setitem_def dom_update)

lemma fold_setitem_length:
  "length (fold (\<lambda>(key, x). setitem key (VFloat x)) ps d)
     = length d + card (fst ` set ps - fst ` set d)"
proof (induction ps arbitrary: d)
  case Nil
  show ?case by simp
next
  case (Cons p ps)
  obtain k x where p: "p = (k, x)" by (cases p)
  let ?d = "setitem k (VFloat x) d"
  have fin: "finite (fst ` set ps - fst ` set d)" by simp
  show ?case
  proof (cases "k \<in> fst ` set d")
    case True
    then have "insert k (fst ` set ps) - fst ` set d = fst ` set ps - fst ` set d"
      and "fst ` set ps - insert k (fst ` set d) = fst ` set ps - fst ` set d"
      by auto
    with True show ?thesis
      using Cons.IH [of ?d] by (simp add: p setitem_length setitem_keys)
  next
    case False
    then have "insert k (fst ` set ps) - fst ` set d
                 = insert k (fst ` set ps - insert k (fst ` set d))"
      by auto
    moreover have "k \<notin> fst ` set ps - insert k (fst ` set d)" by simp
    ultimately have "card (insert k (fst ` set ps) - fst ` set d)
                       = Suc (card (fst ` set ps - insert k (fst ` set d)))"
      by (simp del: Diff_insert_absorb)
    with False show ?thesis
      using Cons.IH [of ?d] by (simp add: p setitem_length setitem_keys)
  qed
qed

lemma store_stats_length:
  assumes "length ns = length xs"
  shows "length (store_stats ns xs d) = length d + card (set ns - fst ` set d)"
proof -
  have "fst ` set (zip ns xs) = set ns"
    using assms by (metis map_fst_zip set_map)
  then show ?thesis
    using fold_setitem_length [of "zip ns xs" d] by (simp add: store_stats_def)
qed

lemma fold_setitem_map_of:
  "map_of (fold (\<lambda>(key, x). setitem key (VFloat x)) ps d)
     = map_of d ++ map_of (rev (map (\<lambda>(key, x). (key, VFloat x)) ps))"
proof (induction ps arbitrary: d)
  case Nil
  show ?case by simp
next
  case (Cons p ps)
  obtain k x where p: "p = (k, x)" by (cases p)
  have "map_of (setitem k (VFloat x) d) = (map_of d)(k \<mapsto> VFloat x)"
    by (rule map_of_setitem)
  then show ?case
    using Cons.IH [of "setitem k (VFloat x) d"]
    by (simp add: p map_add_upd_left map_add_assoc [symmetric]) (simp add: map_add_def fun_upd_def fun_eq_iff split: option.splits)
qed

lemma store_stats_lookup:
  assumes "length ns = length xs" "distinct ns" "i < length ns"
  shows "map_of (store_stats ns xs d) (ns ! i) = Some (VFloat (xs ! i))"
proof -
  let ?ps = "map (\<lambda>(key, x). (key, VFloat x)) (zip ns xs)"
  have fs: "map fst ?ps = ns"
    using assms(1) by (induction ns xs rule: list_induct2) auto
  have "(ns ! i, VFloat (xs ! i)) \<in> set ?ps"
  proof -
    have "(ns ! i, xs ! i) \<in> set (zip ns xs)"
      using assms(1,3) by (metis in_set_zip fst_conv snd_conv)
    then show ?thesis by force
  qed
  then have "(ns ! i, VFloat (xs ! i)) \<in> set (rev ?ps)" by simp
  moreover have "distinct (map fst (rev ?ps))"
    using assms(2) fs by (simp add: rev_map [symmetric])
  ultimately have "map_of (rev ?ps) (ns ! i) = Some (VFloat (xs ! i))"
    by (rule map_of_is_SomeI [rotated])
  then show ?thesis
    by (simp add: store_stats_def fold_setitem_map_of)
qed

lemma map_of_rev_last:
  assumes "i < length ps"
    and "\<forall>j. i < j \<and> j < length ps \<longrightarrow> fst (ps ! j) \<noteq> fst (ps ! i)"
  shows "map_of (rev ps) (fst (ps ! i)) = Some (snd (ps ! i))"
proof -
  have ps: "ps = take i ps @ ps ! i # drop (Suc i) ps"
    using assms(1) by (rule id_take_nth_drop)
  have "fst (ps ! i) \<notin> fst ` set (drop (Suc i) ps)"
  proof
    assume "fst (ps ! i) \<in> fst ` set (drop (Suc i) ps)"
    then obtain p where p: "p \<in> set (drop (Suc i) ps)" "fst p = fst (ps ! i)" by auto
    then obtain k where k: "k < length (drop (Suc i) ps)" "p = drop (Suc i) ps ! k"
      by (auto simp: in_set_conv_nth)
    then have "p = ps ! (Suc i + k)" and "Suc i + k < length ps" and "i < Suc i + k"
      by auto
    with p(2) assms(2) show False by metis
  qed
  then have none: "map_of (rev (drop (Suc i) ps)) (fst (ps ! i)) = None"
    by (simp add: map_of_eq_None_iff)
  have "rev ps = rev (drop (Suc i) ps) @ ps ! i # rev (take i ps)"
    by (subst ps) simp
  then have "map_of (rev ps) (fst (ps ! i))
               = (map_of (ps ! i # rev (take i ps)) ++ map_of (rev (drop (Suc i) ps))) (fst (ps ! i))"
    by (simp only: map_of_append)
  also have "\<dots> = Some (snd (ps ! i))"
    using none by (cases "ps ! i") (simp add: map_add_def)
  finally show ?thesis .
qed

lemma store_stats_map_of:
  "map_of (store_stats ns xs d)
     = map_of d ++ map_of (rev (map (\<lambda>(key, x). (key, VFloat x)) (zip ns xs)))"
  by (simp add: store_stats_def fold_setitem_map_of)

lemma store_stats_last_wins:
  assumes "length ns = length xs" and "i < length ns"
    and "\<forall>j. i < j \<and> j < length ns \<longrightarrow> ns ! j \<noteq> ns ! i"
  shows "map_of (store_stats ns xs d) (ns ! i) = Some (VFloat (xs ! i))"
proof -
  let ?ps = "map (\<lambda>(key, x). (key, VFloat x)) (zip ns xs)"
  have l: "length ?ps = length ns" using assms(1) by simp
  have nth: "?ps ! j = (ns ! j, VFloat (xs ! j))" if "j < length ns" for j
    using that assms(1) by simp
  have "\<forall>j. i < j \<and> j < length ?ps \<longrightarrow> fst (?ps ! j) \<noteq> fst (?ps ! i)"
    using assms(2,3) l nth by auto
  moreover have "i < length ?ps" using assms(2) l by simp
  ultimately have "map_of (rev ?ps) (fst (?ps ! i)) = Some (snd (?ps ! i))"
    by (rule map_of_rev_last [rotated])
  then have "map_of (rev ?ps) (ns ! i) = Some (VFloat (xs ! i))"
    using nth [OF assms(2)] by simp
  then show ?thesis
    by (simp add: store_stats_map_of map_add_def)
qed

lemma store_stats_other_keys:
  assumes "k \<notin> set ns"
  shows "map_of (store_stats ns xs d) k = map_of d k"
proof -
  let ?ps = "map (\<lambda>(key, x). (key, VFloat x)) (zip ns xs)"
  have "fst ` set ?ps \<subseteq> set ns"
    by (auto dest: set_zip_leftD)
  with assms have "k \<notin> fst ` set (rev ?ps)" by auto
  then have "map_of (rev ?ps) k = None"
    by (metis map_of_eq_None_iff)
  then show ?thesis
    by (simp add: store_stats_map_of map_add_def)
qed

text \<open>
  Claim C3, as the code has it. For a stats text whose first two lines hold as many names
  as values, all values parsing as floats, \<^verbatim>\<open>_parse_stats\<close> stores column by column the value
  under the renamed name, where renaming replaces exactly the eight names of the table, once,
  and keeps every other name. A later column overwrites an earlier one with the same key,
  and a key the dictionary already holds: the result maps every renamed name to the value of
  the last column that bears it, and every other key to what it was bound to before. The
  dictionary grows by the number of distinct renamed names it did not hold before; when the
  renamed names are pairwise distinct and new to the dictionary this is the number of
  columns, and every column is found under its renamed name with its own value.
\<close>

theorem stats_columns:
  assumes "map split_ws (splitlines stats) = names # vals # rest"
    and "list_all (\<lambda>v. py_float v \<noteq> None) vals"
    and "length names = length vals"
  shows "parse_stats stats d = Inr (store_stats (map stats_rename names) (float_values vals) d)
       \<and> stats_rename n =
           (if n = ''In'' \<or> n = ''In_(KB/s)'' then ''NetIn''
            else if n = ''Out'' \<or> n = ''Out_(KB/s)'' then ''NetOut''
            else if n = ''+-ms'' then ''varms''
            else if n = ''~tick'' then ''vartick''
            else if n = ''Svms'' then ''svarms''
            else if n = ''Map_changes'' then ''Maps''
            else n)
       \<and> length (store_stats (map stats_rename names) (float_values vals) d)
           = length d + card (stats_rename ` set names - fst ` set d)
       \<and> (distinct (map stats_rename names) \<and> stats_rename ` set names \<inter> fst ` set d = {}
          \<longrightarrow> length (store_stats (map stats_rename names) (float_values vals) d)
                = length d + length names
            \<and> (\<forall>i<length names.
                  map_of (store_stats (map stats_rename names) (float_values vals) d)
                    (stats_rename (names ! i)) = Some (VFloat (float_values vals ! i))))
       \<and> map_of (store_stats (map stats_rename names) (float_values vals) d)
           = map_of d ++ map_of (rev (map (\<lambda>(key, x). (key, VFloat x))
                                       (zip (map stats_rename names) (float_values vals))))
       \<and> (\<forall>i<length names.
            (\<forall>j. i < j \<and> j < length names
                 \<longrightarrow> stats_rename (names ! j) \<noteq> stats_rename (names ! i))
            \<longrightarrow> map_of (store_stats (map stats_rename names) (float_values vals) d)
                  (stats_rename (names ! i)) = Some (VFloat (float_values vals ! i)))
       \<and> (\<forall>k. k \<notin> stats_rename ` set names
            \<longrightarrow> map_of (store_stats (map stats_rename names) (float_values vals) d) k
                  = map_of d k)"
proof -
  let ?ns = "map stats_rename names"
  let ?xs = "float_values vals"
  let ?r = "store_stats ?ns ?xs d"
  have len: "length ?ns = length ?xs"
    using assms(3) by (simp add: float_values_def)
  have 1: "parse_stats stats d = Inr ?r"
    using assms(1,2) by (simp add: parse_stats_lines floats_ok)
  have 2: "stats_rename n =
           (if n = ''In'' \<or> n = ''In_(KB/s)'' then ''NetIn''
            else if n = ''Out'' \<or> n = ''Out_(KB/s)'' then ''NetOut''
            else if n = ''+-ms'' then ''varms''
            else if n = ''~tick'' then ''vartick''
            else if n = ''Svms'' then ''svarms''
            else if n = ''Map_changes'' then ''Maps''
            else n)"
    by (rule stats_rename_table)
  have 3: "length ?r = length d + card (stats_rename ` set names - fst ` set d)"
    using store_stats_length [OF len, of d] by simp
  have 4: "length ?r = length d + length names
            \<and> (\<forall>i<length names. map_of ?r (stats_rename (names ! i)) = Some (VFloat (?xs ! i)))"
    if a: "distinct ?ns \<and> stats_rename ` set names \<inter> fst ` set d = {}"
  proof
    from a have "stats_rename ` set names - fst ` set d = set ?ns" by auto
    moreover have "card (set ?ns) = length names"
      using a distinct_card [of ?ns] by simp
    ultimately show "length ?r = length d + length names"
      using 3 by simp
    show "\<forall>i<length names. map_of ?r (stats_rename (names ! i)) = Some (VFloat (?xs ! i))"
    proof (intro allI impI)
      fix i assume i: "i < length names"
      then have "i < length ?ns" by simp
      with a have "map_of ?r (?ns ! i) = Some (VFloat (?xs ! i))"
        using store_stats_lookup [OF len] by blast
      with i show "map_of ?r (stats_rename (names ! i)) = Some (VFloat (?xs ! i))" by simp
    qed
  qed
  have 5: "map_of ?r = map_of d ++ map_of (rev (map (\<lambda>(key, x). (key, VFloat x)) (zip ?ns ?xs)))"
    by (rule store_stats_map_of)
  have 6: "\<forall>i<length names.
            (\<forall>j. i < j \<and> j < length names
                 \<longrightarrow> stats_rename (names ! j) \<noteq> stats_rename (names ! i))
            \<longrightarrow> map_of ?r (stats_rename (names ! i)) = Some (VFloat (?xs ! i))"
  proof (intro allI impI)
    fix i
    assume i: "i < length names"
      and l: "\<forall>j. i < j \<and> j < length names
                   \<longrightarrow> stats_rename (names ! j) \<noteq> stats_rename (names ! i)"
    have "i < length ?ns" using i by simp
    moreover have "\<forall>j. i < j \<and> j < length ?ns \<longrightarrow> ?ns ! j \<noteq> ?ns ! i"
      using i l by simp
    ultimately have "map_of ?r (?ns ! i) = Some (VFloat (?xs ! i))"
      using store_stats_last_wins [OF len] by blast
    with i show "map_of ?r (stats_rename (names ! i)) = Some (VFloat (?xs ! i))" by simp
  qed
  have 7: "\<forall>k. k \<notin> stats_rename ` set names \<longrightarrow> map_of ?r k = map_of d k"
    using store_stats_other_keys [of _ ?ns ?xs d] by simp
  from 1 2 3 4 5 6 7 show ?thesis by blast
qed

theorem stats_columns_witness:
  "parse_stats (''CPU In Out'' @ [CHR 0x0A] @ ''10.0 1.5 2.5'' @ [CHR 0x0A]) [(''ip'', VStr ''h'')]
     = Inr [(''ip'', VStr ''h''), (''CPU'', VFloat (Finite 10)), (''NetIn'', VFloat (Finite 1.5)),
            (''NetOut'', VFloat (Finite 2.5))]
   \<and> length (store_stats [''CPU'', ''NetIn'', ''NetOut''] [Finite 10, Finite 1.5, Finite 2.5]
               [(''ip'', VStr ''h'')]) = 1 + 3
   \<and> parse_stats (''In In_(KB/s) CPU'' @ [CHR 0x0A] @ ''1 2 3'' @ [CHR 0x0A])
        [(''CPU'', VStr ''old''), (''ip'', VStr ''h'')]
     = Inr [(''CPU'', VFloat (Finite 3)), (''ip'', VStr ''h''), (''NetIn'', VFloat (Finite 2))]
   \<and> map_of (store_stats [''NetIn'', ''NetIn'', ''CPU''] [Finite 1, Finite 2, Finite 3]
               [(''CPU'', VStr ''old''), (''ip'', VStr ''h'')]) ''NetIn'' = Some (VFloat (Finite 2))
   \<and> map_of (store_stats [''NetIn'', ''NetIn'', ''CPU''] [Finite 1, Finite 2, Finite 3]
               [(''CPU'', VStr ''old''), (''ip'', VStr ''h'')]) ''ip'' = Some (VStr ''h'')"
proof -
  let ?s = "''CPU In Out'' @ [CHR 0x0A] @ ''10.0 1.5 2.5'' @ [CHR 0x0A]"
  have l: "map split_ws (splitlines ?s) = [''CPU'', ''In'', ''Out''] # [''10.0'', ''1.5'', ''2.5''] # []"
    by (simp add: splitlines_def is_linebreak_def split_ws_def py_isspace_def)
  have f: "py_float ''10.0'' = Some (Finite 10)" "py_float ''1.5'' = Some (Finite 1.5)"
    "py_float ''2.5'' = Some (Finite 2.5)"
    by (simp_all add: float_eval)
  have p: "list_all (\<lambda>v. py_float v \<noteq> None) [''10.0'', ''1.5'', ''2.5'']" by (simp add: f)
  have n: "length [''CPU'', ''In'', ''Out''] = length [''10.0'', ''1.5'', ''2.5'']" by simp
  have r: "map stats_rename [''CPU'', ''In'', ''Out''] = [''CPU'', ''NetIn'', ''NetOut'']"
    by (simp add: stats_rename_table)
  have v: "float_values [''10.0'', ''1.5'', ''2.5''] = [Finite 10, Finite 1.5, Finite 2.5]"
    by (simp add: float_values_def f)
  have s: "store_stats [''CPU'', ''NetIn'', ''NetOut''] [Finite 10, Finite 1.5, Finite 2.5]
             [(''ip'', VStr ''h'')]
           = [(''ip'', VStr ''h''), (''CPU'', VFloat (Finite 10)), (''NetIn'', VFloat (Finite 1.5)),
              (''NetOut'', VFloat (Finite 2.5))]"
    by (simp add: store_stats_def setitem_def)
  have a: "parse_stats ?s [(''ip'', VStr ''h'')]
          = Inr (store_stats (map stats_rename [''CPU'', ''In'', ''Out''])
                   (float_values [''10.0'', ''1.5'', ''2.5'']) [(''ip'', VStr ''h'')])"
    using stats_columns [OF l p n, of "[(''ip'', VStr ''h'')]" "''In''"] by (rule conjunct1)
  let ?t = "''In In_(KB/s) CPU'' @ [CHR 0x0A] @ ''1 2 3'' @ [CHR 0x0A]"
  let ?d = "[(''CPU'', VStr ''old''), (''ip'', VStr ''h'')]"
  have l': "map split_ws (splitlines ?t) = [''In'', ''In_(KB/s)'', ''CPU''] # [''1'', ''2'', ''3''] # []"
    by (simp add: splitlines_def is_linebreak_def split_ws_def py_isspace_def)
  have f': "py_float ''1'' = Some (Finite 1)" "py_float ''2'' = Some (Finite 2)"
    "py_float ''3'' = Some (Finite 3)"
    by (simp_all add: float_eval)
  have p': "list_all (\<lambda>v. py_float v \<noteq> None) [''1'', ''2'', ''3'']" by (simp add: f')
  have n': "length [''In'', ''In_(KB/s)'', ''CPU''] = length [''1'', ''2'', ''3'']" by simp
  have r': "map stats_rename [''In'', ''In_(KB/s)'', ''CPU''] = [''NetIn'', ''NetIn'', ''CPU'']"
    by (simp add: stats_rename_table)
  have v': "float_values [''1'', ''2'', ''3''] = [Finite 1, Finite 2, Finite 3]"
    by (simp add: float_values_def f')
  have s': "store_stats [''NetIn'', ''NetIn'', ''CPU''] [Finite 1, Finite 2, Finite 3] ?d
           = [(''CPU'', VFloat (Finite 3)), (''ip'', VStr ''h''), (''NetIn'', VFloat (Finite 2))]"
    by (simp add: store_stats_def setitem_def)
  note t = stats_columns [OF l' p' n', of ?d "''In''"]
  have b: "parse_stats ?t ?d
          = Inr (store_stats (map stats_rename [''In'', ''In_(KB/s)'', ''CPU''])
                   (float_values [''1'', ''2'', ''3'']) ?d)"
    using t by (rule conjunct1)
  have last: "\<forall>i<length [''In'', ''In_(KB/s)'', ''CPU''].
            (\<forall>j. i < j \<and> j < length [''In'', ''In_(KB/s)'', ''CPU'']
                 \<longrightarrow> stats_rename ([''In'', ''In_(KB/s)'', ''CPU''] ! j)
                       \<noteq> stats_rename ([''In'', ''In_(KB/s)'', ''CPU''] ! i))
            \<longrightarrow> map_of (store_stats (map stats_rename [''In'', ''In_(KB/s)'', ''CPU''])
                          (float_values [''1'', ''2'', ''3'']) ?d)
                  (stats_rename ([''In'', ''In_(KB/s)'', ''CPU''] ! i))
                  = Some (VFloat (float_values [''1'', ''2'', ''3''] ! i))"
    using t by blast
  have other: "\<forall>k. k \<notin> stats_rename ` set [''In'', ''In_(KB/s)'', ''CPU'']
            \<longrightarrow> map_of (store_stats (map stats_rename [''In'', ''In_(KB/s)'', ''CPU''])
                          (float_values [''1'', ''2'', ''3'']) ?d) k = map_of ?d k"
    using t by blast
  have later: "\<forall>j. 1 < j \<and> j < length [''In'', ''In_(KB/s)'', ''CPU'']
                 \<longrightarrow> stats_rename ([''In'', ''In_(KB/s)'', ''CPU''] ! j)
                       \<noteq> stats_rename ([''In'', ''In_(KB/s)'', ''CPU''] ! 1)"
  proof (intro allI impI)
    fix j :: nat assume "1 < j \<and> j < length [''In'', ''In_(KB/s)'', ''CPU'']"
    then have "j = 2" by simp
    then show "stats_rename ([''In'', ''In_(KB/s)'', ''CPU''] ! j)
                 \<noteq> stats_rename ([''In'', ''In_(KB/s)'', ''CPU''] ! 1)"
      by (simp add: stats_rename_table)
  qed
  have c: "map_of (store_stats [''NetIn'', ''NetIn'', ''CPU''] [Finite 1, Finite 2, Finite 3] ?d)
             ''NetIn'' = Some (VFloat (Finite 2))"
    using last [rule_format, of 1] later by (simp add: r' v' stats_rename_table)
  have e: "map_of (store_stats [''NetIn'', ''NetIn'', ''CPU''] [Finite 1, Finite 2, Finite 3] ?d)
             ''ip'' = Some (VStr ''h'')"
    using other [rule_format, of "''ip''"] by (simp add: r' v' stats_rename_table)
  from a b c e show ?thesis
    by (simp only: r v s r' v' s') simp
qed

text \<open>
  Claim C3 as the specification words it fails: the table sends \<^verbatim>\<open>In\<close> and \<^verbatim>\<open>In_(KB/s)\<close> to the
  same key, so a stats text with these two columns adds one metric, not two.
\<close>

theorem stats_colliding_columns:
  "map split_ws (splitlines (''In In_(KB/s)'' @ [CHR 0x0A] @ ''1 2'' @ [CHR 0x0A]))
     = [[''In'', ''In_(KB/s)''], [''1'', ''2'']]
   \<and> parse_stats (''In In_(KB/s)'' @ [CHR 0x0A] @ ''1 2'' @ [CHR 0x0A]) []
     = Inr [(''NetIn'', VFloat (Finite 2))]
   \<and> length [(''NetIn'', VFloat (Finite 2))] \<noteq> length [''In'', ''In_(KB/s)'']"
proof -
  let ?s = "''In In_(KB/s)'' @ [CHR 0x0A] @ ''1 2'' @ [CHR 0x0A]"
  have l: "map split_ws (splitlines ?s) = [''In'', ''In_(KB/s)''] # [''1'', ''2''] # []"
    by (simp add: splitlines_def is_linebreak_def split_ws_def py_isspace_def)
  have f: "py_float ''1'' = Some (Finite 1)" "py_float ''2'' = Some (Finite 2)"
    by (simp_all add: float_eval)
  have "parse_stats ?s [] = Inr [(''NetIn'', VFloat (Finite 2))]"
    using parse_stats_lines [OF l, of "[]"]
    by (simp add: f stats_rename_table store_stats_def setitem_def)
  with l show ?thesis by simp
qed

section \<open>The example of the specification\<close>

lemma example_status_parsed:
  "parse_status example_status d
     = Inr (players_found ''5'' (Some ''2'') ''10'' (setitem ''hostname'' (VStr ''My Server'') d))"
proof -
  have sl: "splitlines example_status
              = [''hostname: My Server'', ''players: 5 humans, 2 bots (10 max)'']"
    by (simp add: example_status_def splitlines_def is_linebreak_def)
  have h: "list_all is_header [''hostname: My Server'', ''players: 5 humans, 2 bots (10 max)'']"
    by (simp add: is_header_def strip_def py_isspace_def)
  have k1: "header_line ''hostname: My Server'' d = setitem ''hostname'' (VStr ''My Server'') d"
    by (simp add: header_line_def header_key_def header_value_def strip_def py_isspace_def
        status_field_def)
  have dg: "digits ''5''" "digits ''2''" "digits ''10''"
    by (simp_all add: digits_def is_digit_def)
  have k2: "header_line ''players: 5 humans, 2 bots (10 max)'' d'
              = players_found ''5'' (Some ''2'') ''10'' d'" for d'
    using players_bots [OF dg, of "[]" d']
    by (simp add: header_line_def header_key_def header_value_def strip_def py_isspace_def
        status_field_def)
  have "takeWhile is_header (splitlines example_status) = splitlines example_status"
    using h by (simp add: sl)
  then show ?thesis
    by (simp add: parse_status_total) (simp add: sl k1 k2)
qed

lemma example_stats_parsed:
  "parse_stats example_stats d
     = Inr (store_stats [''NetIn'', ''NetOut'', ''varms''] [Finite 1.5, Finite 2.5, Finite 30] d)"
proof -
  have l: "map split_ws (splitlines example_stats)
             = [''In'', ''Out'', ''+-ms''] # [''1.5'', ''2.5'', ''30.0''] # []"
    by (simp add: example_stats_def splitlines_def is_linebreak_def split_ws_def py_isspace_def)
  have f: "py_float ''1.5'' = Some (Finite 1.5)" "py_float ''2.5'' = Some (Finite 2.5)"
    "py_float ''30.0'' = Some (Finite 30)"
    by (simp_all add: float_eval)
  show ?thesis
    using parse_stats_lines [OF l, of d] by (simp add: f stats_rename_table)
qed

text \<open>
  Claim C5, as the code has it. For the two example texts and any address and port, the
  parser returns the dictionary the handler starts from (the keys \<^verbatim>\<open>ip\<close>, \<^verbatim>\<open>port\<close> and
  \<^verbatim>\<open>target\<close>, in this order) followed by \<^verbatim>\<open>hostname\<close>, by \<^verbatim>\<open>players\<close>, \<^verbatim>\<open>bots\<close> and \<^verbatim>\<open>max_players\<close>
  as the strings \<^verbatim>\<open>"5"\<close>, \<^verbatim>\<open>"2"\<close> and \<^verbatim>\<open>"10"\<close>, and by \<^verbatim>\<open>NetIn\<close>, \<^verbatim>\<open>NetOut\<close> and \<^verbatim>\<open>varms\<close> as the
  floats 1.5, 2.5 and 30.0.
\<close>

theorem example_mapping:
  "parse_query example_stats example_status (server_dict ip port)
     = Inr (server_dict ip port @
            [(''hostname'', VStr ''My Server''),
             (''players'', VStr ''5''),
             (''bots'', VStr ''2''),
             (''max_players'', VStr ''10''),
             (''NetIn'', VFloat (Finite 1.5)),
             (''NetOut'', VFloat (Finite 2.5)),
             (''varms'', VFloat (Finite 30))])
   \<and> map fst (server_dict ip port) = [''ip'', ''port'', ''target'']
   \<and> map_of (server_dict ip port) ''ip'' = Some (val_of ip)
   \<and> map_of (server_dict ip port) ''port'' = Some (val_of port)"
  by (simp add: parse_query_def example_status_parsed example_stats_parsed)
     (simp add: server_dict_def players_found_def store_stats_def setitem_def)

text \<open>
  Claim C5 as the specification words it fails, for the target \<^verbatim>\<open>1.2.3.4:27015\<close>: \<^verbatim>\<open>players\<close> is
  the string \<^verbatim>\<open>"5"\<close>, not the integer 5, and the format \<^verbatim>\<open>"{%s}:{%s}"\<close> keeps its braces, so
  \<^verbatim>\<open>target\<close> is \<^verbatim>\<open>{1.2.3.4}:{27015}\<close>, not the address, a colon and the port.
\<close>

theorem example_mapping_differs:
  "(case parse_query example_stats example_status
           (server_dict (PStr ''1.2.3.4'') (PStr ''27015'')) of
      Inl e \<Rightarrow> False
    | Inr d \<Rightarrow>
        map_of d ''players'' = Some (VStr ''5'')
        \<and> map_of d ''players''
            \<noteq> map_of (spec_example_mapping (PStr ''1.2.3.4'') (PStr ''27015'')) ''players''
        \<and> map_of d ''target'' = Some (VStr ''{1.2.3.4}:{27015}'')
        \<and> map_of d ''target''
            \<noteq> map_of (spec_example_mapping (PStr ''1.2.3.4'') (PStr ''27015'')) ''target'')"
  by (simp add: parse_query_def example_status_parsed example_stats_parsed)
     (simp add: server_dict_def players_found_def store_stats_def setitem_def
        spec_example_mapping_def)

text \<open>The same dictionary is what a scrape that gets the two example texts renders.\<close>

lemma example_scrape:
  assumes "path req = ''/metrics''" and "get_target self req = Inr (ip, port, password)"
  shows "request_handler self req (Inr (example_status, example_stats))
           = (Inr (Response (Rendered (server_dict ip port @
                [(''hostname'', VStr ''My Server''),
                 (''players'', VStr ''5''),
                 (''bots'', VStr ''2''),
                 (''max_players'', VStr ''10''),
                 (''NetIn'', VFloat (Finite 1.5)),
                 (''NetOut'', VFloat (Finite 2.5)),
                 (''varms'', VFloat (Finite 30))])) 200),
              [(ip, port, password)])"
  using assms
  by (simp add: request_handler_def parse_query_def example_status_parsed example_stats_parsed)
     (simp add: server_dict_def players_found_def store_stats_def setitem_def)

end
